theory Spec2Isabelle
  imports Main
begin

section \<open>Data model\<close>

text \<open>
  The notification cycle of the SplatNet shop alerts server
  (\<^verbatim>\<open>pages/api/check-and-notify.ts\<close>) and the database helpers it calls
  (\<^verbatim>\<open>lib/database_utils\<close>). Timestamps are integral milliseconds since the epoch,
  so JavaScript numbers are modelled as \<^typ>\<open>int\<close>; strings are ASCII byte strings.
\<close>

text \<open>A gear item, with the fields the cycle reads from the \<^verbatim>\<open>Gear\<close> class.\<close>

record Gear =
  gear_id :: string
  name :: string
  brand :: string
  gear_type :: string
  ability :: string
  rarity :: int
  expiration :: int
  image :: string

text \<open>A push subscription object: endpoint, expiration hint and the key pair.\<close>

record Subscription =
  endpoint :: string
  expirationTime :: "string option"
  auth :: string
  p256dh :: string

text \<open>
  Rows of the tables created by \<^verbatim>\<open>setupDatabaseTables\<close>. A row of the filter table
  carries one BOOL column per gear type, ability and brand; \<open>DB_TRUE_COLUMNS\<close> lists the
  names of those columns that hold TRUE in the row. The watermark column of a user holds the
  number as text or NULL (\<open>None\<close>); JavaScript compares it with a number as a number.
\<close>

record FilterRow =
  DB_FILTER_ID :: nat
  DB_GEAR_NAME :: string
  DB_GEAR_RARITY :: int
  DB_GEAR_TYPE_WILDCARD :: bool
  DB_GEAR_BRAND_WILDCARD :: bool
  DB_GEAR_ABILITY_WILDCARD :: bool
  DB_TRUE_COLUMNS :: "string list"

record UserRow =
  DB_USER_ID :: nat
  DB_USER_CODE :: string
  DB_LAST_NOTIFIED_EXPIRATION :: "int option"

record SubscriptionRow =
  DB_SUBSCRIPTION_USER_ID :: nat
  DB_ENDPOINT :: string
  DB_EXPIRATION :: "string option"
  DB_AUTH_KEY :: string
  DB_P256DH_KEY :: string

text \<open>
  The database: the server cache holding the raw gear data of the last cycle, and the four
  tables. \<open>DB_TABLE_USERS_TO_FILTERS\<close> pairs a user id with a filter id.
\<close>

record 'r Database =
  DB_TABLE_SERVER_CACHE :: "'r option"
  DB_TABLE_FILTERS :: "FilterRow list"
  DB_TABLE_USERS_TO_FILTERS :: "(nat \<times> nat) list"
  DB_TABLE_USERS :: "UserRow list"
  DB_TABLE_SUBSCRIPTIONS :: "SubscriptionRow list"

text \<open>The object that \<^verbatim>\<open>generateNotificationPayload\<close> builds (serialised to JSON by the caller).\<close>

record Payload =
  title :: string
  body :: string
  payload_image :: string
  iconURL :: string
  loginURL :: string
  siteURL :: string
  shopURL :: string
  gearID :: string
  userCode :: string
  tag :: string
  payload_expiration :: int

text \<open>
  What \<^verbatim>\<open>webpush.sendNotification\<close> does with one request: it resolves, it rejects with a
  \<^verbatim>\<open>WebPushError\<close> carrying a status code, or it rejects with some other error.
\<close>

datatype SendResult = Sent | WebPushError int | OtherError

text \<open>
  Everything one invocation of the handler takes from outside the database: the configured
  secret and the request's authorization header, the clock (read as one instant per cycle),
  the answer of the inventory API (\<open>None\<close> when the fetch throws), the push service, and the
  parts of the repository that the handler imports from \<^verbatim>\<open>lib/gear_loader\<close>,
  \<^verbatim>\<open>lib/backend_utils\<close> and \<^verbatim>\<open>constants\<close> whose source is not at hand
  (\<open>rawGearDataToGearList\<close>, \<open>getNewGearItems\<close>, the base URLs, \<open>FE_USER_CODE_URL\<close>).
\<close>

record 'r Env =
  ACTION_SECRET :: "string option"
  authorization :: "string option"
  now :: int
  fetchAPIRawGearData :: "'r option"
  rawGearDataToGearList :: "'r \<Rightarrow> Gear list"
  getNewGearItems :: "Gear list \<Rightarrow> Gear list \<Rightarrow> Gear list"
  sendNotification :: "Subscription \<Rightarrow> Payload \<Rightarrow> int \<Rightarrow> SendResult"
  BASE_WEBSITE_URL :: string
  BASE_SPLATNET_URL :: string
  FE_USER_CODE_URL :: string

text \<open>
  The calls the handler makes that reach outside it. \<open>SendNotification u s p ttl\<close> is the call
  of \<^verbatim>\<open>trySendNotification\<close> made while the loop handles user \<open>u\<close>. A call is \<open>Awaited\<close>
  when the handler waits for its promise before it goes on, and \<open>Detached\<close> when the promise
  is dropped.
\<close>

datatype 'r Call =
    FetchAPIRawGearData
  | SendNotification nat Subscription Payload int
  | DeletePushSubscription string
  | UpdateLastNotifiedExpiration nat int
  | UpdateCachedRawGearData 'r

datatype 'r Effect = Awaited "'r Call" | Detached "'r Call"

fun callOf :: "'r Effect \<Rightarrow> 'r Call" where
  "callOf (Awaited c) = c"
| "callOf (Detached c) = c"

datatype Error = IllegalArgumentError | QueryError

datatype LoopResult = Completed | Rejected | TypeError

section \<open>JavaScript maps\<close>

text \<open>
  A \<^verbatim>\<open>Map\<close> keeps its entries in insertion order with one entry per key: setting a key
  that is present replaces the value in place, a new key goes to the end.
\<close>

fun map_set :: "'k \<Rightarrow> 'v \<Rightarrow> ('k \<times> 'v) list \<Rightarrow> ('k \<times> 'v) list" where
  "map_set k v [] = [(k, v)]"
| "map_set k v ((k', v') # m) =
     (if k' = k then (k, v) # m else (k', v') # map_set k v m)"

definition map_of_entries :: "('k \<times> 'v) list \<Rightarrow> ('k \<times> 'v) list" where
  "map_of_entries es = foldl (\<lambda>m (k, v). map_set k v m) [] es"

definition map_has :: "('k \<times> 'v) list \<Rightarrow> 'k \<Rightarrow> bool" where
  "map_has m k = (k \<in> set (map fst m))"

section \<open>Database helpers\<close>

text \<open>\<^verbatim>\<open>toLowerCase\<close> on ASCII: the capital letters go to the small ones.\<close>

definition toLowerCase :: "char \<Rightarrow> char" where
  "toLowerCase c =
     (case map_of (zip ''ABCDEFGHIJKLMNOPQRSTUVWXYZ'' ''abcdefghijklmnopqrstuvwxyz'') c of
        Some l \<Rightarrow> l
      | None \<Rightarrow> c)"

text \<open>\<^verbatim>\<open>input.replace(/\(| |\)|-/g, "").toLowerCase()\<close>\<close>

definition formatCol :: "string \<Rightarrow> string" where
  "formatCol input =
     map toLowerCase
       (filter (\<lambda>c. c \<noteq> CHR ''('' \<and> c \<noteq> CHR '' '' \<and> c \<noteq> CHR '')'' \<and> c \<noteq> CHR ''-'') input)"

definition GEAR_TYPES :: "string list" where
  "GEAR_TYPES = [''HeadGear'', ''ClothingGear'', ''ShoesGear'']"

definition GEAR_BRANDS :: "string list" where
  "GEAR_BRANDS =
     [''Annaki'', ''Barazushi'', ''Emberz'', ''Enperry'', ''Firefin'', ''Forge'', ''Inkline'',
      ''Krak-On'', ''Rockenberg'', ''Skalop'', ''Splash Mob'', ''SquidForce'', ''Takoroka'',
      ''Tentatek'', ''Toni Kensa'', ''Zekko'', ''Zink'']"

definition GEAR_ABILITIES :: "string list" where
  "GEAR_ABILITIES =
     [''Ink Saver (Main)'', ''Ink Saver (Sub)'', ''Ink Recovery Up'', ''Run Speed Up'',
      ''Swim Speed Up'', ''Special Charge Up'', ''Special Saver'', ''Special Power Up'',
      ''Quick Respawn'', ''Quick Super Jump'', ''Sub Power Up'', ''Ink Resistance Up'',
      ''Sub Resistance Up'', ''Intensify Action'', ''Opening Gambit'', ''Last-Ditch Effort'',
      ''Tenacity'', ''Comeback'', ''Ninja Squid'', ''Haunt'', ''Thermal Ink'',
      ''Respawn Punisher'', ''Stealth Jump'', ''Object Shredder'', ''Drop Roller'']"

text \<open>
  The BOOL columns that \<^verbatim>\<open>setupDatabaseTables\<close> generates for the filter table. A query
  that names any other identifier where a boolean is expected is refused by the database.
\<close>

definition filterColumns :: "string list" where
  "filterColumns = map formatCol (GEAR_TYPES @ GEAR_ABILITIES @ GEAR_BRANDS)"

text \<open>The character class of \<^verbatim>\<open>/^[A-Za-z0-9-+()&' ]*$/\<close>.\<close>

definition allowedChar :: "char \<Rightarrow> bool" where
  "allowedChar c =
     (c \<in> set (''ABCDEFGHIJKLMNOPQRSTUVWXYZ'' @ ''abcdefghijklmnopqrstuvwxyz'' @ ''0123456789''
               @ ''-+()&'' @ [CHR 0x27] @ '' ''))"

definition allowedCharsPattern :: "string \<Rightarrow> bool" where
  "allowedCharsPattern s = list_all allowedChar s"

text \<open>The WHERE clause of the inner query \<open>matchingFilters\<close>.\<close>

definition matchingFilter :: "Gear \<Rightarrow> FilterRow \<Rightarrow> bool" where
  "matchingFilter gear f =
     (DB_GEAR_RARITY f \<le> rarity gear
      \<and> (DB_GEAR_NAME f = [] \<or> DB_GEAR_NAME f = name gear)
      \<and> (DB_GEAR_ABILITY_WILDCARD f \<or> formatCol (ability gear) \<in> set (DB_TRUE_COLUMNS f))
      \<and> (DB_GEAR_TYPE_WILDCARD f \<or> formatCol (gear_type gear) \<in> set (DB_TRUE_COLUMNS f))
      \<and> (DB_GEAR_BRAND_WILDCARD f \<or> formatCol (brand gear) \<in> set (DB_TRUE_COLUMNS f)))"

text \<open>\<^verbatim>\<open>SELECT DISTINCT ON (userid)\<close>: the first row of every user id.\<close>

fun distinctOn :: "(nat \<times> string) list \<Rightarrow> (nat \<times> string) list" where
  "distinctOn [] = []"
| "distinctOn (r # rs) = r # distinctOn (filter (\<lambda>r'. fst r' \<noteq> fst r) rs)"

text \<open>
  \<^verbatim>\<open>getUsersToBeNotified\<close>: the check of the name, then the query. The item's ability,
  type and brand are written into the query text as column names (after \<open>formatCol\<close>);
  the database refuses a name that is no column, so the query is taken to fail unless each
  of them is one of the generated columns. The query selects the ids of the filters
  that match, the user ids paired with one of these filters, and the users with one of
  these ids, one row each; the rows are put into a map from user id to user code.
\<close>

definition getUsersToBeNotified :: "'r Database \<Rightarrow> Gear \<Rightarrow> Error + (nat \<times> string) list" where
  "getUsersToBeNotified db gear =
     (if \<not> allowedCharsPattern (name gear) then Inl IllegalArgumentError
      else if \<not> (formatCol (ability gear) \<in> set filterColumns
                 \<and> formatCol (gear_type gear) \<in> set filterColumns
                 \<and> formatCol (brand gear) \<in> set filterColumns) then Inl QueryError
      else
        let matchingFilters =
              map DB_FILTER_ID (filter (matchingFilter gear) (DB_TABLE_FILTERS db));
            matchingUserIDs =
              concat (map (\<lambda>(uid, fid). map (\<lambda>_. uid) (filter (\<lambda>m. fid = m) matchingFilters))
                          (DB_TABLE_USERS_TO_FILTERS db));
            rows =
              distinctOn
                (concat (map (\<lambda>u. map (\<lambda>_. (DB_USER_ID u, DB_USER_CODE u))
                                       (filter (\<lambda>m. DB_USER_ID u = m) matchingUserIDs))
                             (DB_TABLE_USERS db)))
        in Inr (foldl (\<lambda>userMap (uid, code). map_set uid code userMap) [] rows))"

definition getLastNotifiedExpiration :: "'r Database \<Rightarrow> nat \<Rightarrow> int" where
  "getLastNotifiedExpiration db userID =
     (case filter (\<lambda>u. DB_USER_ID u = userID) (DB_TABLE_USERS db) of
        [] \<Rightarrow> - 1
      | row # _ \<Rightarrow> (case DB_LAST_NOTIFIED_EXPIRATION row of None \<Rightarrow> - 1 | Some v \<Rightarrow> v))"

definition updateLastNotifiedExpiration :: "'r Database \<Rightarrow> nat \<Rightarrow> int \<Rightarrow> 'r Database" where
  "updateLastNotifiedExpiration db userID latestExpiration =
     db\<lparr>DB_TABLE_USERS :=
          map (\<lambda>u. if DB_USER_ID u = userID
                   then u\<lparr>DB_LAST_NOTIFIED_EXPIRATION := Some latestExpiration\<rparr> else u)
              (DB_TABLE_USERS db)\<rparr>"

definition getUserSubscriptions :: "'r Database \<Rightarrow> nat \<Rightarrow> Subscription list" where
  "getUserSubscriptions db userID =
     map (\<lambda>row. \<lparr>endpoint = DB_ENDPOINT row, expirationTime = DB_EXPIRATION row,
                 auth = DB_AUTH_KEY row, p256dh = DB_P256DH_KEY row\<rparr>)
         (filter (\<lambda>row. DB_SUBSCRIPTION_USER_ID row = userID) (DB_TABLE_SUBSCRIPTIONS db))"

text \<open>Deletes all subscriptions with a matching endpoint, regardless of user.\<close>

definition deletePushSubscription :: "'r Database \<Rightarrow> Subscription \<Rightarrow> 'r Database" where
  "deletePushSubscription db subscription =
     db\<lparr>DB_TABLE_SUBSCRIPTIONS :=
          filter (\<lambda>row. DB_ENDPOINT row \<noteq> endpoint subscription) (DB_TABLE_SUBSCRIPTIONS db)\<rparr>"

text \<open>
  What \<^verbatim>\<open>trySendNotification\<close> does once the send has settled. The result is
  \<open>Some True\<close> when the push service accepted the request, \<open>Some False\<close> when the
  function returns nothing after deleting the subscription (status 404, 410 or 403), and
  \<open>None\<close> when it throws. The calls listed are those made after the send; the call of the
  send itself is recorded by the loop, which starts all sends of a user before any settles.
\<close>

definition trySendNotification ::
  "'r Env \<Rightarrow> 'r Database \<Rightarrow> Subscription \<Rightarrow> Payload \<Rightarrow> int
     \<Rightarrow> 'r Database \<times> 'r Effect list \<times> bool option" where
  "trySendNotification E db subscription notification options =
     (case sendNotification E subscription notification options of
        Sent \<Rightarrow> (db, [], Some True)
      | WebPushError statusCode \<Rightarrow>
          if statusCode = 404 \<or> statusCode = 410 \<or> statusCode = 403
          then (deletePushSubscription db subscription,
                [Awaited (DeletePushSubscription (endpoint subscription))],
                Some False)
          else (db, [], None)
      | OtherError \<Rightarrow> (db, [], None))"

text \<open>
  Modelled from the spec: \<^verbatim>\<open>fetchCachedRawGearData\<close> and \<^verbatim>\<open>updateCachedRawGearData\<close> of
  \<^verbatim>\<open>lib/gear_loader\<close> are the spec's \<open>loadSnapshot\<close> and \<open>saveSnapshot\<close>: they read and
  replace the one stored snapshot.
\<close>

definition fetchCachedRawGearData :: "'r Database \<Rightarrow> 'r option" where
  "fetchCachedRawGearData db = DB_TABLE_SERVER_CACHE db"

definition updateCachedRawGearData :: "'r Database \<Rightarrow> 'r \<Rightarrow> 'r Database" where
  "updateCachedRawGearData db raw = db\<lparr>DB_TABLE_SERVER_CACHE := Some raw\<rparr>"

section \<open>The notification cycle\<close>

definition getUserGear :: "(Gear \<times> (nat \<times> string) list) list \<Rightarrow> nat \<Rightarrow> Gear list" where
  "getUserGear gearToUsers userID =
     map fst (filter (\<lambda>(gear, userMap). map_has userMap userID) gearToUsers)"

definition aggregateUsers :: "(Gear \<times> (nat \<times> string) list) list \<Rightarrow> (nat \<times> string) list" where
  "aggregateUsers gearToUserMap =
     foldl (\<lambda>allUserMap userMap. map_of_entries (allUserMap @ userMap)) [] (map snd gearToUserMap)"

text \<open>
  \<^verbatim>\<open>getUsersToNotify\<close> wraps each lookup in a promise that is resolved in the lookup's
  \<^verbatim>\<open>then\<close> callback; the \<^verbatim>\<open>catch\<close> around the call sees synchronous exceptions only, and
  \<^verbatim>\<open>getUsersToBeNotified\<close> is an async function, whose exception is a rejected promise. A
  lookup that fails therefore leaves its wrapping promise pending, and
  \<^verbatim>\<open>Promise.all\<close> never settles: the result is \<open>None\<close>. The gear objects are distinct
  objects, so every lookup adds an entry (here in the order of \<open>newGear\<close>).
\<close>

fun getUsersToNotify ::
  "'r Database \<Rightarrow> Gear list \<Rightarrow> (Gear \<times> (nat \<times> string) list) list option" where
  "getUsersToNotify db [] = Some []"
| "getUsersToNotify db (gear # newGear) =
     (case getUsersToBeNotified db gear of
        Inl e \<Rightarrow> None
      | Inr v \<Rightarrow> map_option ((#) (gear, v)) (getUsersToNotify db newGear))"

text \<open>
  The TTL: \<^verbatim>\<open>Math.floor\<close> of the milliseconds until the expiration, divided by 1000.
\<close>

definition generateNotificationOptions :: "'r Env \<Rightarrow> Gear \<Rightarrow> int" where
  "generateNotificationOptions E gear =
     (let timeDiffMilliseconds = expiration gear - now E;
          timeDiffSeconds = timeDiffMilliseconds div 1000
      in timeDiffSeconds)"

definition generateNotificationPayload :: "'r Env \<Rightarrow> string \<Rightarrow> Gear \<Rightarrow> Payload" where
  "generateNotificationPayload E code gear =
     \<lparr>title = ''Now on SplatNet!'',
      body = name gear @ '': '' @ ability gear,
      payload_image = [],
      iconURL = image gear,
      loginURL = BASE_WEBSITE_URL E @ ''/login?'' @ FE_USER_CODE_URL E @ ''='' @ code,
      siteURL = BASE_WEBSITE_URL E,
      shopURL = BASE_SPLATNET_URL E,
      gearID = gear_id gear,
      userCode = code,
      tag = gear_id gear,
      payload_expiration = expiration gear\<rparr>"

text \<open>
  The settling of the sends of one user, in the order in which they were started. The
  result flag says whether some send threw, which rejects the user's \<^verbatim>\<open>Promise.all\<close>.
\<close>

fun trySendAll ::
  "'r Env \<Rightarrow> 'r Database \<Rightarrow> (Subscription \<times> Payload \<times> int) list
     \<Rightarrow> 'r Database \<times> 'r Effect list \<times> bool" where
  "trySendAll E db [] = (db, [], False)"
| "trySendAll E db ((subscription, notification, options) # rest) =
     (case trySendNotification E db subscription notification options of
        (db1, t1, result) \<Rightarrow>
          (case trySendAll E db1 rest of
             (db2, t2, threw) \<Rightarrow> (db2, t1 @ t2, result = None \<or> threw)))"

text \<open>
  Step 5 of the handler: the loop over \<open>allUserMap\<close>. For a user who is to be notified the
  loop starts one send per subscription and notification; the sends of a user are taken to
  settle before the next user is examined. The watermark update is called in the
  \<^verbatim>\<open>then\<close> callback of the user's \<^verbatim>\<open>Promise.all\<close>, which neither awaits nor returns
  its promise. Reading \<^verbatim>\<open>userGear[userGear.length - 1].expiration\<close> of an empty list
  throws a \<^verbatim>\<open>TypeError\<close>, which ends the loop; a rejected send lets the loop go on and
  is seen when the handler awaits all users. The counters of the loop only feed the log and
  are left out.
\<close>

fun notifyUsers ::
  "'r Env \<Rightarrow> (Gear \<times> (nat \<times> string) list) list \<Rightarrow> (nat \<times> string) list \<Rightarrow> 'r Database
     \<Rightarrow> 'r Database \<times> 'r Effect list \<times> LoopResult" where
  "notifyUsers E gearToUserMap [] db = (db, [], Completed)"
| "notifyUsers E gearToUserMap ((userID, code) # rest) db =
     (let userGear = getUserGear gearToUserMap userID;
          notifications =
            map (\<lambda>gear. (generateNotificationPayload E code gear, generateNotificationOptions E gear))
                userGear
      in if userGear = [] then (db, [], TypeError)
         else
           let latestExpiration = expiration (last userGear)
           in if latestExpiration \<le> getLastNotifiedExpiration db userID
              then notifyUsers E gearToUserMap rest db
              else
                let userSubscriptions = getUserSubscriptions db userID
                in if userSubscriptions = [] then notifyUsers E gearToUserMap rest db
                   else
                     let sends = concat (map (\<lambda>subscription.
                                                map (\<lambda>(notification, options).
                                                       (subscription, notification, options))
                                                    notifications)
                                             userSubscriptions);
                         t0 = map (\<lambda>(subscription, notification, options).
                                     Awaited (SendNotification userID subscription
                                                notification options))
                                  sends
                     in (case trySendAll E db sends of
                           (db1, t1, threw) \<Rightarrow>
                             let db2 = (if threw then db1
                                        else updateLastNotifiedExpiration db1 userID
                                               latestExpiration);
                                 t2 = (if threw then []
                                       else [Detached (UpdateLastNotifiedExpiration userID
                                                         latestExpiration)])
                             in (case notifyUsers E gearToUserMap rest db2 of
                                   (db3, t3, r) \<Rightarrow>
                                     (db3, t0 @ t1 @ t2 @ t3,
                                      if r = TypeError then TypeError
                                      else if threw then Rejected else r))))"

text \<open>
  The handler. The result is the HTTP status (\<open>None\<close> when no response is ever sent), the
  database it leaves and the calls it made, in the order it made them. The configuration of
  the push library in step 4 is taken to succeed.
\<close>

definition handler :: "'r Env \<Rightarrow> 'r Database \<Rightarrow> nat option \<times> 'r Database \<times> 'r Effect list" where
  "handler E db =
     (let secretKey = ACTION_SECRET E; providedKey = authorization E
      in if \<not> (secretKey = None \<or> secretKey = Some []) \<and> secretKey \<noteq> providedKey
         then (Some 401, db, [])
         else
           let cachedGear = (case fetchCachedRawGearData db of
                               None \<Rightarrow> []
                             | Some cachedRawGearData \<Rightarrow> rawGearDataToGearList E cachedRawGearData)
           in if cachedGear \<noteq> [] \<and> now E < expiration (hd cachedGear)
              then (Some 425, db, [])
              else
                (case fetchAPIRawGearData E of
                   None \<Rightarrow> (Some 500, db, [Awaited FetchAPIRawGearData])
                 | Some fetchedRawGearData \<Rightarrow>
                     let fetchedGear = rawGearDataToGearList E fetchedRawGearData;
                         newGear = getNewGearItems E cachedGear fetchedGear
                     in (case getUsersToNotify db newGear of
                           None \<Rightarrow> (None, db, [Awaited FetchAPIRawGearData])
                         | Some gearToUserMap \<Rightarrow>
                             (case notifyUsers E gearToUserMap (aggregateUsers gearToUserMap) db of
                                (db1, t, r) \<Rightarrow>
                                  if r = Completed
                                  then (Some 200, updateCachedRawGearData db1 fetchedRawGearData,
                                        Awaited FetchAPIRawGearData # t
                                          @ [Awaited (UpdateCachedRawGearData fetchedRawGearData)])
                                  else (Some 500, db1, Awaited FetchAPIRawGearData # t)))))"

text \<open>
  The batch of a cycle: the gear-to-user map that step 3 of the handler computes, when the
  handler gets that far and the lookups settle.
\<close>

definition cycleGearToUserMap ::
  "'r Env \<Rightarrow> 'r Database \<Rightarrow> (Gear \<times> (nat \<times> string) list) list option" where
  "cycleGearToUserMap E db =
     (let cachedGear = (case fetchCachedRawGearData db of
                          None \<Rightarrow> []
                        | Some cachedRawGearData \<Rightarrow> rawGearDataToGearList E cachedRawGearData)
      in case fetchAPIRawGearData E of
           None \<Rightarrow> None
         | Some fetchedRawGearData \<Rightarrow>
             getUsersToNotify db
               (getNewGearItems E cachedGear (rawGearDataToGearList E fetchedRawGearData)))"

text \<open>Successive invocations of the handler, each with its own request and surroundings.\<close>

fun cycles :: "'r Env list \<Rightarrow> 'r Database \<Rightarrow> 'r Database" where
  "cycles [] db = db"
| "cycles (E # Es) db = cycles Es (fst (snd (handler E db)))"

section \<open>The matching rule in the specification's words\<close>

text \<open>
  The explicit set of a filter for one dimension: the names of that dimension whose column
  holds TRUE (what \<^verbatim>\<open>rowDataToFilter\<close> reads back from a row).
\<close>

definition explicitSet :: "string list \<Rightarrow> FilterRow \<Rightarrow> string set" where
  "explicitSet names f = {x \<in> set names. formatCol x \<in> set (DB_TRUE_COLUMNS f)}"

text \<open>
  A filter matches an item iff the item's rarity is at least the filter's minimum rarity, the
  filter's name is unset or equals the item's name, and for each of type, brand and ability
  the filter is wildcarded or the item's value lies in the filter's explicit set.
\<close>

definition specFilterMatches :: "FilterRow \<Rightarrow> Gear \<Rightarrow> bool" where
  "specFilterMatches f item =
     (DB_GEAR_RARITY f \<le> rarity item
      \<and> (DB_GEAR_NAME f = [] \<or> DB_GEAR_NAME f = name item)
      \<and> (DB_GEAR_TYPE_WILDCARD f \<or> {gear_type item} \<inter> explicitSet GEAR_TYPES f \<noteq> {})
      \<and> (DB_GEAR_BRAND_WILDCARD f \<or> {brand item} \<inter> explicitSet GEAR_BRANDS f \<noteq> {})
      \<and> (DB_GEAR_ABILITY_WILDCARD f \<or> {ability item} \<inter> explicitSet GEAR_ABILITIES f \<noteq> {}))"

section \<open>Auxiliary functions and example data\<close>

text \<open>The watermark read from the first row of a user, by recursion over the table.\<close>

fun firstWatermark :: "UserRow list \<Rightarrow> nat \<Rightarrow> int" where
  "firstWatermark [] u = - 1"
| "firstWatermark (row # rows) u =
     (if DB_USER_ID row = u
      then (case DB_LAST_NOTIFIED_EXPIRATION row of None \<Rightarrow> - 1 | Some v \<Rightarrow> v)
      else firstWatermark rows u)"

text \<open>
  Two items of one shop rotation with different expirations, an item whose name has a comma,
  and an item of a brand that has no column.
\<close>

definition gearA :: Gear where
  "gearA = \<lparr>gear_id = ''R2Vhci0x'', name = ''Fresh Fish Head'', brand = ''Zink'',
             gear_type = ''HeadGear'', ability = ''Haunt'', rarity = 1, expiration = 50000,
             image = ''a.png''\<rparr>"

definition gearB :: Gear where
  "gearB = \<lparr>gear_id = ''R2Vhci0y'', name = ''Annaki Flannel Hoodie'', brand = ''Annaki'',
             gear_type = ''ClothingGear'', ability = ''Comeback'', rarity = 2, expiration = 200000,
             image = ''b.png''\<rparr>"

definition gearComma :: Gear where
  "gearComma = \<lparr>gear_id = ''R2Vhci0z'', name = ''Do-Rag, Cap, & Glasses'', brand = ''Forge'',
                 gear_type = ''HeadGear'', ability = ''Tenacity'', rarity = 1, expiration = 200000,
                 image = ''c.png''\<rparr>"

definition gearZF :: Gear where
  "gearZF = \<lparr>gear_id = ''R2Vhci0w'', name = ''Gray Vector Tee'', brand = ''Z+F'',
              gear_type = ''ClothingGear'', ability = ''Haunt'', rarity = 1, expiration = 200000,
              image = ''d.png''\<rparr>"

text \<open>A filter that wildcards everything, and one that asks for rarity 2.\<close>

definition filterAny :: FilterRow where
  "filterAny = \<lparr>DB_FILTER_ID = 1, DB_GEAR_NAME = [], DB_GEAR_RARITY = 0,
                 DB_GEAR_TYPE_WILDCARD = True, DB_GEAR_BRAND_WILDCARD = True,
                 DB_GEAR_ABILITY_WILDCARD = True, DB_TRUE_COLUMNS = []\<rparr>"

definition filterRare :: FilterRow where
  "filterRare = \<lparr>DB_FILTER_ID = 2, DB_GEAR_NAME = [], DB_GEAR_RARITY = 2,
                  DB_GEAR_TYPE_WILDCARD = True, DB_GEAR_BRAND_WILDCARD = True,
                  DB_GEAR_ABILITY_WILDCARD = True, DB_TRUE_COLUMNS = []\<rparr>"

definition subscriptionRow1 :: SubscriptionRow where
  "subscriptionRow1 = \<lparr>DB_SUBSCRIPTION_USER_ID = 1, DB_ENDPOINT = ''https://push.example/1'',
                        DB_EXPIRATION = None, DB_AUTH_KEY = ''k1'', DB_P256DH_KEY = ''p1''\<rparr>"

definition subscription1 :: Subscription where
  "subscription1 = \<lparr>endpoint = ''https://push.example/1'', expirationTime = None,
                     auth = ''k1'', p256dh = ''p1''\<rparr>"

text \<open>
  A database with an empty cache, one user who owns \<open>filterAny\<close> and has one subscribed
  device, and the watermark given.
\<close>

definition exampleDb :: "int option \<Rightarrow> Gear list Database" where
  "exampleDb watermark =
     \<lparr>DB_TABLE_SERVER_CACHE = None,
      DB_TABLE_FILTERS = [filterAny],
      DB_TABLE_USERS_TO_FILTERS = [(1, 1)],
      DB_TABLE_USERS = [\<lparr>DB_USER_ID = 1, DB_USER_CODE = ''abc'',
                         DB_LAST_NOTIFIED_EXPIRATION = watermark\<rparr>],
      DB_TABLE_SUBSCRIPTIONS = [subscriptionRow1]\<rparr>"

text \<open>
  Surroundings in which the raw gear data is the gear list itself, the new items are the
  fetched items that are not cached, no secret is configured and the clock reads 10000.
\<close>

definition exampleEnv :: "Gear list \<Rightarrow> SendResult \<Rightarrow> Gear list Env" where
  "exampleEnv fetched outcome =
     \<lparr>ACTION_SECRET = None, authorization = None, now = 10000,
      fetchAPIRawGearData = Some fetched,
      rawGearDataToGearList = (\<lambda>raw. raw),
      getNewGearItems = (\<lambda>cachedGear fetchedGear. filter (\<lambda>g. g \<notin> set cachedGear) fetchedGear),
      sendNotification = (\<lambda>subscription notification options. outcome),
      BASE_WEBSITE_URL = ''/'', BASE_SPLATNET_URL = ''/'', FE_USER_CODE_URL = ''usercode''\<rparr>"

section \<open>Properties of maps\<close>

lemma map_has_Nil: "map_has [] k = False"
  by (simp add: map_has_def)

lemma map_fst_map_set:
  "map fst (map_set k v m) = (if k \<in> set (map fst m) then map fst m else map fst m @ [k])"
  by (induction m) (auto split: if_splits)

lemma keys_map_set: "fst ` set (map_set k v m) = insert k (fst ` set m)"
  using arg_cong [OF map_fst_map_set [of k v m], of set] by (auto split: if_splits)

lemma map_has_set: "map_has (map_set k v m) k' = (k' = k \<or> map_has m k')"
  by (simp add: map_has_def keys_map_set)

lemma map_has_entries_aux:
  "map_has (foldl (\<lambda>m (k, v). map_set k v m) acc es) k = (map_has acc k \<or> k \<in> fst ` set es)"
  by (induction es arbitrary: acc) (auto simp: map_has_set split: prod.splits)

lemma map_has_of_entries: "map_has (map_of_entries es) k = (k \<in> fst ` set es)"
  by (simp add: map_of_entries_def map_has_entries_aux map_has_Nil)

lemma map_has_append: "map_has (m @ m') k = (map_has m k \<or> map_has m' k)"
  by (auto simp: map_has_def)

lemma map_has_aggregate_aux:
  "map_has (foldl (\<lambda>allUserMap userMap. map_of_entries (allUserMap @ userMap)) acc ms) k
     = (map_has acc k \<or> (\<exists>m \<in> set ms. map_has m k))"
proof (induction ms arbitrary: acc)
  case Nil
  show ?case by simp
next
  case (Cons m ms)
  have "map_has (map_of_entries (acc @ m)) k = (map_has acc k \<or> map_has m k)"
    by (simp add: map_has_of_entries) (auto simp: map_has_def)
  with Cons show ?case by auto
qed

lemma map_has_aggregateUsers:
  "map_has (aggregateUsers G) k = (\<exists>(gear, userMap) \<in> set G. map_has userMap k)"
  by (simp add: aggregateUsers_def map_has_aggregate_aux map_has_Nil) force

lemma getUserGear_nonempty:
  "map_has (aggregateUsers G) userID \<Longrightarrow> getUserGear G userID \<noteq> []"
  by (auto simp: map_has_aggregateUsers getUserGear_def filter_empty_conv)

section \<open>Properties of the database helpers\<close>

lemma filterColumns_eval [code]:
  "filterColumns =
     [''headgear'', ''clothinggear'', ''shoesgear'',
      ''inksavermain'', ''inksaversub'', ''inkrecoveryup'', ''runspeedup'', ''swimspeedup'',
      ''specialchargeup'', ''specialsaver'', ''specialpowerup'', ''quickrespawn'',
      ''quicksuperjump'', ''subpowerup'', ''inkresistanceup'', ''subresistanceup'',
      ''intensifyaction'', ''openinggambit'', ''lastditcheffort'', ''tenacity'', ''comeback'',
      ''ninjasquid'', ''haunt'', ''thermalink'', ''respawnpunisher'', ''stealthjump'',
      ''objectshredder'', ''droproller'',
      ''annaki'', ''barazushi'', ''emberz'', ''enperry'', ''firefin'', ''forge'', ''inkline'',
      ''krakon'', ''rockenberg'', ''skalop'', ''splashmob'', ''squidforce'', ''takoroka'',
      ''tentatek'', ''tonikensa'', ''zekko'', ''zink'']"
  by code_simp

lemma getLast_users_cong:
  "DB_TABLE_USERS db' = DB_TABLE_USERS db \<Longrightarrow>
     getLastNotifiedExpiration db' u = getLastNotifiedExpiration db u"
  by (simp add: getLastNotifiedExpiration_def)

lemma users_deletePushSubscription [simp]:
  "DB_TABLE_USERS (deletePushSubscription db s) = DB_TABLE_USERS db"
  by (simp add: deletePushSubscription_def)

lemma trySendNotification_users:
  "trySendNotification E db s n ttl = (db', t, r) \<Longrightarrow> DB_TABLE_USERS db' = DB_TABLE_USERS db"
  by (auto simp: trySendNotification_def split: SendResult.splits if_splits)

lemma trySendAll_users:
  "trySendAll E db sends = (db', t, threw) \<Longrightarrow> DB_TABLE_USERS db' = DB_TABLE_USERS db"
proof (induction sends arbitrary: db db' t threw)
  case Nil
  then show ?case by simp
next
  case (Cons a sends)
  obtain s n ttl where a: "a = (s, n, ttl)" by (cases a) auto
  obtain db1 t1 r where one: "trySendNotification E db s n ttl = (db1, t1, r)"
    by (cases "trySendNotification E db s n ttl") auto
  obtain db2 t2 th where rest: "trySendAll E db1 sends = (db2, t2, th)"
    by (cases "trySendAll E db1 sends") auto
  from Cons.prems a one rest have "db' = db2" by simp
  with Cons.IH [OF rest] trySendNotification_users [OF one] show ?case by simp
qed

lemma getLast_firstWatermark:
  "getLastNotifiedExpiration db u = firstWatermark (DB_TABLE_USERS db) u"
proof -
  have "(case filter (\<lambda>r. DB_USER_ID r = u) rows of [] \<Rightarrow> - 1
         | row # _ \<Rightarrow> (case DB_LAST_NOTIFIED_EXPIRATION row of None \<Rightarrow> - 1 | Some v \<Rightarrow> v))
        = firstWatermark rows u" for rows
    by (induction rows) auto
  then show ?thesis by (simp add: getLastNotifiedExpiration_def)
qed

lemma firstWatermark_update:
  "firstWatermark (map (\<lambda>r. if DB_USER_ID r = u
                               then r\<lparr>DB_LAST_NOTIFIED_EXPIRATION := Some v\<rparr> else r) rows) u'
     = (if u' = u \<and> u \<in> DB_USER_ID ` set rows then v else firstWatermark rows u')"
  by (induction rows) auto

lemma firstWatermark_absent: "u \<notin> DB_USER_ID ` set rows \<Longrightarrow> firstWatermark rows u = - 1"
  by (induction rows) auto

lemma getLast_update:
  "getLastNotifiedExpiration (updateLastNotifiedExpiration db u v) u'
     = (if u' = u \<and> u \<in> DB_USER_ID ` set (DB_TABLE_USERS db) then v
        else getLastNotifiedExpiration db u')"
  by (simp add: getLast_firstWatermark updateLastNotifiedExpiration_def firstWatermark_update)

lemma getLast_update_mono:
  "getLastNotifiedExpiration db u < v \<Longrightarrow>
     getLastNotifiedExpiration db u' \<le> getLastNotifiedExpiration (updateLastNotifiedExpiration db u v) u'"
  by (simp add: getLast_update)

declare notifyUsers.simps(2) [simp del]

lemma notifyUsers_Cons_cases [consumes 0, case_names typeerror skip send]:
  fixes E :: "'r Env"
  assumes "\<lbrakk>getUserGear G userID = [];
            notifyUsers E G ((userID, code) # rest) db = (db, [], TypeError)\<rbrakk> \<Longrightarrow> P"
    and "\<lbrakk>getUserGear G userID \<noteq> [];
          expiration (last (getUserGear G userID)) \<le> getLastNotifiedExpiration db userID
            \<or> getUserSubscriptions db userID = [];
          notifyUsers E G ((userID, code) # rest) db = notifyUsers E G rest db\<rbrakk> \<Longrightarrow> P"
    and "\<And>sends db1 t1 threw db3 t3 r.
         \<lbrakk>getUserGear G userID \<noteq> [];
          getLastNotifiedExpiration db userID < expiration (last (getUserGear G userID));
          sends = concat (map (\<lambda>subscription.
                            map (\<lambda>(notification, options). (subscription, notification, options))
                                (map (\<lambda>gear. (generateNotificationPayload E code gear,
                                               generateNotificationOptions E gear))
                                     (getUserGear G userID)))
                         (getUserSubscriptions db userID));
          trySendAll E db sends = (db1, t1, threw);
          notifyUsers E G rest
            (if threw then db1
             else updateLastNotifiedExpiration db1 userID (expiration (last (getUserGear G userID))))
            = (db3, t3, r);
          notifyUsers E G ((userID, code) # rest) db
            = (db3,
               map (\<lambda>(s, n, ttl). Awaited (SendNotification userID s n ttl)) sends
               @ t1
               @ (if threw then []
                  else [Detached (UpdateLastNotifiedExpiration userID
                                    (expiration (last (getUserGear G userID))))])
               @ t3,
               if r = TypeError then TypeError else if threw then Rejected else r)\<rbrakk> \<Longrightarrow> P"
  shows P
proof (cases "getUserGear G userID = []")
  case True
  then show ?thesis using assms(1) by (simp add: notifyUsers.simps(2))
next
  case ne: False
  show ?thesis
  proof (cases "expiration (last (getUserGear G userID)) \<le> getLastNotifiedExpiration db userID
                \<or> getUserSubscriptions db userID = []")
    case True
    then show ?thesis using assms(2) ne by (auto simp: Let_def notifyUsers.simps(2))
  next
    case False
    define sends where
      "sends = concat (map (\<lambda>subscription.
                            map (\<lambda>(notification, options). (subscription, notification, options))
                                (map (\<lambda>gear. (generateNotificationPayload E code gear,
                                               generateNotificationOptions E gear))
                                     (getUserGear G userID)))
                         (getUserSubscriptions db userID))"
    obtain db1 t1 threw where s: "trySendAll E db sends = (db1, t1, threw)"
      by (cases "trySendAll E db sends") auto
    let ?db2 = "if threw then db1
             else updateLastNotifiedExpiration db1 userID (expiration (last (getUserGear G userID)))"
    obtain db3 t3 r where n: "notifyUsers E G rest ?db2 = (db3, t3, r)"
      by (cases "notifyUsers E G rest ?db2") auto
    from False have lt: "getLastNotifiedExpiration db userID
                           < expiration (last (getUserGear G userID))" by simp
    show ?thesis
      apply (rule assms(3) [OF ne lt sends_def s n])
      using False ne s n by (auto simp: Let_def notifyUsers.simps(2) sends_def)
  qed
qed

lemma notifyUsers_watermark_mono:
  "notifyUsers E G us db = (db', t, r) \<Longrightarrow>
     getLastNotifiedExpiration db u \<le> getLastNotifiedExpiration db' u"
proof (induction us arbitrary: db db' t r)
  case Nil
  then show ?case by simp
next
  case (Cons a us)
  obtain userID code where a: "a = (userID, code)" by (cases a) auto
  show ?case
  proof (cases rule: notifyUsers_Cons_cases [of G userID E code us db])
    case typeerror
    with Cons.prems a show ?thesis by simp
  next
    case skip
    with Cons.prems a Cons.IH show ?thesis by simp
  next
    case (send sends db1 t1 threw db3 t3 r')
    from Cons.prems a send(6) have eq: "db' = db3" by simp
    have u1: "getLastNotifiedExpiration db1 u = getLastNotifiedExpiration db u" for u
      using trySendAll_users [OF send(4)] by (rule getLast_users_cong)
    have "getLastNotifiedExpiration db u
            \<le> getLastNotifiedExpiration
                 (if threw then db1
                  else updateLastNotifiedExpiration db1 userID
                         (expiration (last (getUserGear G userID)))) u"
      using send(2) u1 getLast_update_mono [of db1 userID _ u] by auto
    also have "\<dots> \<le> getLastNotifiedExpiration db3 u"
      by (rule Cons.IH [OF send(5)])
    finally show ?thesis using eq by simp
  qed
qed

subsection \<open>The calls of the loop\<close>

lemma trySendNotification_calls:
  "trySendNotification E db s n ttl = (db', t, r) \<Longrightarrow>
     callOf ` set t \<subseteq> {DeletePushSubscription (endpoint s)}"
  by (auto simp: trySendNotification_def split: SendResult.splits if_splits)

lemma trySendAll_calls:
  "trySendAll E db sends = (db', t, threw) \<Longrightarrow> c \<in> callOf ` set t \<Longrightarrow>
     (\<exists>s n ttl. (s, n, ttl) \<in> set sends \<and> c = DeletePushSubscription (endpoint s))"
proof (induction sends arbitrary: db db' t threw)
  case Nil
  then show ?case by simp
next
  case (Cons a sends)
  obtain s n ttl where a: "a = (s, n, ttl)" by (cases a) auto
  obtain db1 t1 r where one: "trySendNotification E db s n ttl = (db1, t1, r)"
    by (cases "trySendNotification E db s n ttl") auto
  obtain db2 t2 th where rest: "trySendAll E db1 sends = (db2, t2, th)"
    by (cases "trySendAll E db1 sends") auto
  from Cons.prems(1) a one rest have t: "t = t1 @ t2" by simp
  with Cons.prems(2) consider "c \<in> callOf ` set t1" | "c \<in> callOf ` set t2" by auto
  then show ?case
  proof cases
    case 1
    with trySendNotification_calls [OF one]
    have "c = DeletePushSubscription (endpoint s)" by blast
    with a show ?thesis by auto
  next
    case 2
    from Cons.IH [OF rest 2] show ?thesis by auto
  qed
qed

lemma calls_of_sends:
  "c \<in> callOf ` set (map (\<lambda>(s, n, ttl). Awaited (SendNotification u s n ttl)) sends)
     \<longleftrightarrow> (\<exists>s n ttl. (s, n, ttl) \<in> set sends \<and> c = SendNotification u s n ttl)"
  by (induction sends) auto

text \<open>The calls of one user who is notified: the sends, the cleanups, the watermark write.\<close>

lemma user_calls:
  assumes "trySendAll E db sends = (db1, t1, threw)"
    and "c \<in> callOf ` set (map (\<lambda>(s, n, ttl). Awaited (SendNotification u s n ttl)) sends
                              @ t1 @ (if threw then []
                                      else [Detached (UpdateLastNotifiedExpiration u v)]) @ t3)"
  obtains (sent) s n ttl where "(s, n, ttl) \<in> set sends" "c = SendNotification u s n ttl"
    | (cleanup) s n ttl where "(s, n, ttl) \<in> set sends" "c = DeletePushSubscription (endpoint s)"
    | (update) "\<not> threw" "c = UpdateLastNotifiedExpiration u v"
    | (later) "c \<in> callOf ` set t3"
proof -
  from assms(2) have
      "c \<in> callOf ` set (map (\<lambda>(s, n, ttl). Awaited (SendNotification u s n ttl)) sends)
       \<or> c \<in> callOf ` set t1
       \<or> c \<in> callOf ` set (if threw then [] else [Detached (UpdateLastNotifiedExpiration u v)])
       \<or> c \<in> callOf ` set t3"
    by (simp only: set_append image_Un Un_iff)
  moreover have "\<not> threw \<and> c = UpdateLastNotifiedExpiration u v"
    if "c \<in> callOf ` set (if threw then [] else [Detached (UpdateLastNotifiedExpiration u v)])"
    using that by (cases threw) simp_all
  ultimately consider
      "c \<in> callOf ` set (map (\<lambda>(s, n, ttl). Awaited (SendNotification u s n ttl)) sends)"
    | "c \<in> callOf ` set t1" | "\<not> threw \<and> c = UpdateLastNotifiedExpiration u v"
    | "c \<in> callOf ` set t3"
    by blast
  then show ?thesis
  proof cases
    case 1
    then obtain s n ttl where "(s, n, ttl) \<in> set sends" "c = SendNotification u s n ttl"
      unfolding calls_of_sends by blast
    then show ?thesis by (rule sent)
  next
    case 2
    from trySendAll_calls [OF assms(1) 2] show ?thesis using cleanup by blast
  next
    case 3
    then show ?thesis using update by blast
  next
    case 4
    then show ?thesis by (rule later)
  qed
qed

lemma notifyUsers_calls:
  "notifyUsers E G us db = (db', t, r) \<Longrightarrow> c \<in> callOf ` set t \<Longrightarrow>
     (\<exists>u s n ttl. c = SendNotification u s n ttl) \<or> (\<exists>e. c = DeletePushSubscription e)
     \<or> (\<exists>u v. c = UpdateLastNotifiedExpiration u v)"
proof (induction us arbitrary: db db' t r)
  case Nil
  then show ?case by simp
next
  case (Cons a us)
  obtain userID code where a: "a = (userID, code)" by (cases a) auto
  show ?case
  proof (cases rule: notifyUsers_Cons_cases [of G userID E code us db])
    case typeerror
    with Cons.prems a show ?thesis by simp
  next
    case skip
    with Cons.prems a Cons.IH show ?thesis by simp
  next
    case (send sends db1 t1 threw db3 t3 r')
    from Cons.prems a send(6)
    have c: "c \<in> callOf ` set (map (\<lambda>(s, n, ttl). Awaited (SendNotification userID s n ttl)) sends
               @ t1 @ (if threw then []
                       else [Detached (UpdateLastNotifiedExpiration userID
                                         (expiration (last (getUserGear G userID))))]) @ t3)"
      by simp
    from send(4) c show ?thesis
    proof (cases rule: user_calls)
      case later
      from Cons.IH [OF send(5) this] show ?thesis .
    qed auto
  qed
qed

lemma after_sends_mono:
  assumes "trySendAll E db sends = (db1, t1, threw)"
    and "getLastNotifiedExpiration db userID < v"
  shows "getLastNotifiedExpiration db u
           \<le> getLastNotifiedExpiration
                (if threw then db1 else updateLastNotifiedExpiration db1 userID v) u"
proof -
  have same: "getLastNotifiedExpiration db1 w = getLastNotifiedExpiration db w" for w
    using trySendAll_users [OF assms(1)] by (rule getLast_users_cong)
  show ?thesis
    using assms(2) same getLast_update_mono [of db1 userID v u] by auto
qed

subsection \<open>Watermark writes and sends happen only above the stored watermark\<close>

lemma notifyUsers_update_above:
  "notifyUsers E G us db = (db', t, r) \<Longrightarrow>
   UpdateLastNotifiedExpiration u v \<in> callOf ` set t \<Longrightarrow>
     getLastNotifiedExpiration db u < v \<and> v = expiration (last (getUserGear G u))"
proof (induction us arbitrary: db db' t r)
  case Nil
  then show ?case by simp
next
  case (Cons a us)
  obtain userID code where a: "a = (userID, code)" by (cases a) auto
  show ?case
  proof (cases rule: notifyUsers_Cons_cases [of G userID E code us db])
    case typeerror
    with Cons.prems a show ?thesis by simp
  next
    case skip
    with Cons.prems a Cons.IH show ?thesis by simp
  next
    case (send sends db1 t1 threw db3 t3 r')
    let ?db2 = "if threw then db1 else updateLastNotifiedExpiration db1 userID
                         (expiration (last (getUserGear G userID)))"
    from Cons.prems a send(6)
    have c: "UpdateLastNotifiedExpiration u v
               \<in> callOf ` set (map (\<lambda>(s, n, ttl). Awaited (SendNotification userID s n ttl)) sends
               @ t1 @ (if threw then []
                       else [Detached (UpdateLastNotifiedExpiration userID
                                         (expiration (last (getUserGear G userID))))]) @ t3)"
      by simp
    from send(4) c show ?thesis
    proof (cases rule: user_calls)
      case update
      with send(2) show ?thesis by simp
    next
      case later
      have "getLastNotifiedExpiration db u \<le> getLastNotifiedExpiration ?db2 u"
        by (rule after_sends_mono [OF send(4) send(2)])
      with Cons.IH [OF send(5) later] show ?thesis by simp
    qed auto
  qed
qed

lemma notifyUsers_send_above:
  "notifyUsers E G us db = (db', t, r) \<Longrightarrow>
   SendNotification u s p ttl \<in> callOf ` set t \<Longrightarrow>
     getLastNotifiedExpiration db u < expiration (last (getUserGear G u))"
proof (induction us arbitrary: db db' t r)
  case Nil
  then show ?case by simp
next
  case (Cons a us)
  obtain userID code where a: "a = (userID, code)" by (cases a) auto
  show ?case
  proof (cases rule: notifyUsers_Cons_cases [of G userID E code us db])
    case typeerror
    with Cons.prems a show ?thesis by simp
  next
    case skip
    with Cons.prems a Cons.IH show ?thesis by simp
  next
    case (send sends db1 t1 threw db3 t3 r')
    let ?db2 = "if threw then db1 else updateLastNotifiedExpiration db1 userID
                         (expiration (last (getUserGear G userID)))"
    from Cons.prems a send(6)
    have c: "SendNotification u s p ttl
               \<in> callOf ` set (map (\<lambda>(s, n, ttl). Awaited (SendNotification userID s n ttl)) sends
               @ t1 @ (if threw then []
                       else [Detached (UpdateLastNotifiedExpiration userID
                                         (expiration (last (getUserGear G userID))))]) @ t3)"
      by simp
    from send(4) c show ?thesis
    proof (cases rule: user_calls)
      case (sent s' n' ttl')
      then have "u = userID" by simp
      with send(2) show ?thesis by simp
    next
      case later
      have "getLastNotifiedExpiration db u \<le> getLastNotifiedExpiration ?db2 u"
        by (rule after_sends_mono [OF send(4) send(2)])
      with Cons.IH [OF send(5) later] show ?thesis by simp
    qed auto
  qed
qed

lemma notifyUsers_watermark_kept:
  "notifyUsers E G us db = (db', t, r) \<Longrightarrow>
   expiration (last (getUserGear G u)) \<le> getLastNotifiedExpiration db u \<Longrightarrow>
     getLastNotifiedExpiration db' u = getLastNotifiedExpiration db u"
proof (induction us arbitrary: db db' t r)
  case Nil
  then show ?case by simp
next
  case (Cons a us)
  obtain userID code where a: "a = (userID, code)" by (cases a) auto
  show ?case
  proof (cases rule: notifyUsers_Cons_cases [of G userID E code us db])
    case typeerror
    with Cons.prems a show ?thesis by simp
  next
    case skip
    with Cons.prems a Cons.IH show ?thesis by simp
  next
    case (send sends db1 t1 threw db3 t3 r')
    let ?db2 = "if threw then db1 else updateLastNotifiedExpiration db1 userID
                         (expiration (last (getUserGear G userID)))"
    from Cons.prems(1) a send(6) have eq: "db' = db3" by simp
    from send(2) Cons.prems(2) have ne: "u \<noteq> userID" by auto
    have same: "getLastNotifiedExpiration ?db2 u = getLastNotifiedExpiration db u"
      using ne getLast_users_cong [OF trySendAll_users [OF send(4)], of u]
      by (simp add: getLast_update)
    with Cons.IH [OF send(5)] Cons.prems(2) eq show ?thesis by simp
  qed
qed

subsection \<open>The branches of the handler\<close>

lemma handler_cases [consumes 0, case_names unauthorized early fetchfail pending ran]:
  fixes E :: "'r Env"
  assumes "handler E db = (Some 401, db, []) \<Longrightarrow> P"
    and "handler E db = (Some 425, db, []) \<Longrightarrow> P"
    and "handler E db = (Some 500, db, [Awaited FetchAPIRawGearData]) \<Longrightarrow> P"
    and "handler E db = (None, db, [Awaited FetchAPIRawGearData]) \<Longrightarrow> P"
    and "\<And>raw G db1 t r.
          \<lbrakk>fetchAPIRawGearData E = Some raw; cycleGearToUserMap E db = Some G;
           notifyUsers E G (aggregateUsers G) db = (db1, t, r);
           handler E db =
             (if r = Completed
              then (Some 200, updateCachedRawGearData db1 raw,
                    Awaited FetchAPIRawGearData # t @ [Awaited (UpdateCachedRawGearData raw)])
              else (Some 500, db1, Awaited FetchAPIRawGearData # t))\<rbrakk> \<Longrightarrow> P"
  shows P
proof -
  let ?cached = "case fetchCachedRawGearData db of None \<Rightarrow> []
                 | Some cachedRawGearData \<Rightarrow> rawGearDataToGearList E cachedRawGearData"
  consider (a) "\<not> (ACTION_SECRET E = None \<or> ACTION_SECRET E = Some [])
                  \<and> ACTION_SECRET E \<noteq> authorization E"
    | (b) "\<not> (\<not> (ACTION_SECRET E = None \<or> ACTION_SECRET E = Some [])
                  \<and> ACTION_SECRET E \<noteq> authorization E)"
          "?cached \<noteq> [] \<and> now E < expiration (hd ?cached)"
    | (c) "\<not> (\<not> (ACTION_SECRET E = None \<or> ACTION_SECRET E = Some [])
                  \<and> ACTION_SECRET E \<noteq> authorization E)"
          "\<not> (?cached \<noteq> [] \<and> now E < expiration (hd ?cached))"
    by blast
  then show ?thesis
  proof cases
    case a
    then have "handler E db = (Some 401, db, [])" by (simp add: handler_def)
    then show ?thesis by (rule assms(1))
  next
    case b
    then have "handler E db = (Some 425, db, [])" by (simp add: handler_def Let_def)
    then show ?thesis by (rule assms(2))
  next
    case c
    show ?thesis
    proof (cases "fetchAPIRawGearData E")
      case None
      with c have "handler E db = (Some 500, db, [Awaited FetchAPIRawGearData])"
        by (simp add: handler_def Let_def)
      then show ?thesis by (rule assms(3))
    next
      case (Some raw)
      let ?new = "getNewGearItems E ?cached (rawGearDataToGearList E raw)"
      have cg: "cycleGearToUserMap E db = getUsersToNotify db ?new"
        using Some by (simp add: cycleGearToUserMap_def Let_def)
      show ?thesis
      proof (cases "getUsersToNotify db ?new")
        case None
        with c Some have "handler E db = (None, db, [Awaited FetchAPIRawGearData])"
          by (simp add: handler_def Let_def)
        then show ?thesis by (rule assms(4))
      next
        case G: (Some G)
        obtain db1 t r where n: "notifyUsers E G (aggregateUsers G) db = (db1, t, r)"
          by (cases "notifyUsers E G (aggregateUsers G) db") auto
        show ?thesis
          apply (rule assms(5) [OF Some _ n])
          using cg G apply simp
          using c Some G n by (simp add: handler_def Let_def)
      qed
    qed
  qed
qed

lemma notifyUsers_no_TypeError:
  "\<forall>(u, c) \<in> set us. getUserGear G u \<noteq> [] \<Longrightarrow> notifyUsers E G us db = (db', t, r) \<Longrightarrow>
     r \<noteq> TypeError"
proof (induction us arbitrary: db db' t r)
  case Nil
  then show ?case by auto
next
  case (Cons a us)
  obtain userID code where a: "a = (userID, code)" by (cases a) auto
  from Cons.prems(1) a have ne: "getUserGear G userID \<noteq> []"
    and rest: "\<forall>(u, c) \<in> set us. getUserGear G u \<noteq> []" by auto
  show ?case
  proof (cases rule: notifyUsers_Cons_cases [of G userID E code us db])
    case typeerror
    with ne show ?thesis by simp
  next
    case skip
    with Cons.prems(2) a Cons.IH [OF rest] show ?thesis by simp
  next
    case (send sends db1 t1 threw db3 t3 r')
    from Cons.IH [OF rest send(5)] have "r' \<noteq> TypeError" .
    with Cons.prems(2) a send(6) show ?thesis by (auto split: if_splits)
  qed
qed

lemma floor_div_1000:
  fixes d :: int
  shows "1000 * (d div 1000) \<le> d \<and> d < 1000 * (d div 1000) + 1000
         \<and> (0 \<le> d \<longrightarrow> 0 \<le> d div 1000) \<and> (d < 0 \<longrightarrow> d div 1000 < 0)"
proof -
  define q where "q = d div 1000"
  define r where "r = d mod 1000"
  have d: "d = 1000 * q + r" unfolding q_def r_def by simp
  have r: "0 \<le> r" "r < 1000" unfolding r_def by simp_all
  have 1: "1000 * q \<le> d" using d r by linarith
  have 2: "d < 1000 * q + 1000" using d r by linarith
  have 3: "0 \<le> d div 1000" if "0 \<le> d" using that by (simp add: pos_imp_zdiv_nonneg_iff)
  have 4: "d div 1000 < 0" if "d < 0" using that by (simp add: pos_imp_zdiv_neg_iff)
  from 1 2 3 4 show ?thesis unfolding q_def by blast
qed

text \<open>
  The TTL is the floor of the milliseconds left, divided by 1000: not negative when the
  expiration is not in the past, negative when it is.
\<close>

lemma generateNotificationOptions_floor:
  "generateNotificationOptions E gear = (expiration gear - now E) div 1000
   \<and> (now E \<le> expiration gear \<longrightarrow>
        0 \<le> generateNotificationOptions E gear
        \<and> 1000 * generateNotificationOptions E gear \<le> expiration gear - now E
        \<and> expiration gear - now E < 1000 * generateNotificationOptions E gear + 1000)
   \<and> (expiration gear < now E \<longrightarrow> generateNotificationOptions E gear < 0)"
proof -
  define d where "d = expiration gear - now E"
  have ttl: "generateNotificationOptions E gear = d div 1000"
    by (simp add: generateNotificationOptions_def Let_def d_def)
  have pos: "now E \<le> expiration gear \<Longrightarrow> 0 \<le> d" and neg: "expiration gear < now E \<Longrightarrow> d < 0"
    by (simp_all add: d_def)
  from floor_div_1000 [of d] pos neg show ?thesis
    unfolding ttl d_def [symmetric] by blast
qed

subsection \<open>Watermarks over whole cycles\<close>

lemma getLast_updateCached [simp]:
  "getLastNotifiedExpiration (updateCachedRawGearData db raw) u = getLastNotifiedExpiration db u"
  by (simp add: getLastNotifiedExpiration_def updateCachedRawGearData_def)

lemma handler_watermark_mono:
  "getLastNotifiedExpiration db u \<le> getLastNotifiedExpiration (fst (snd (handler E db))) u"
proof (cases rule: handler_cases [of E db])
  case (ran raw G db1 t r)
  from notifyUsers_watermark_mono [OF ran(3)] ran(4) show ?thesis by simp
qed simp_all

lemma cycles_watermark_mono:
  "getLastNotifiedExpiration db u \<le> getLastNotifiedExpiration (cycles Es db) u"
proof (induction Es arbitrary: db)
  case Nil
  show ?case by simp
next
  case (Cons E Es)
  have "getLastNotifiedExpiration db u
          \<le> getLastNotifiedExpiration (fst (snd (handler E db))) u"
    by (rule handler_watermark_mono)
  also have "\<dots> \<le> getLastNotifiedExpiration (cycles Es (fst (snd (handler E db)))) u"
    by (rule Cons.IH)
  finally show ?case by simp
qed

lemma handler_update_above:
  assumes "handler E db = (status, db', t)"
    and "UpdateLastNotifiedExpiration u v \<in> callOf ` set t"
  shows "(\<exists>G. cycleGearToUserMap E db = Some G \<and> v = expiration (last (getUserGear G u)))
         \<and> getLastNotifiedExpiration db u < v"
proof (cases rule: handler_cases [of E db])
  case (ran raw G db1 t1 r)
  from assms ran(4) have "UpdateLastNotifiedExpiration u v \<in> callOf ` set t1"
    by (auto split: if_splits)
  from notifyUsers_update_above [OF ran(3) this] ran(2) show ?thesis by simp
qed (use assms in auto)

subsection \<open>Subscriptions are only ever deleted\<close>

lemma subs_updateLast [simp]:
  "DB_TABLE_SUBSCRIPTIONS (updateLastNotifiedExpiration db u v) = DB_TABLE_SUBSCRIPTIONS db"
  by (simp add: updateLastNotifiedExpiration_def)

lemma subs_updateCached [simp]:
  "DB_TABLE_SUBSCRIPTIONS (updateCachedRawGearData db raw) = DB_TABLE_SUBSCRIPTIONS db"
  by (simp add: updateCachedRawGearData_def)

lemma getUserSubscriptions_endpoint:
  "s \<in> set (getUserSubscriptions db u) \<Longrightarrow> endpoint s \<in> DB_ENDPOINT ` set (DB_TABLE_SUBSCRIPTIONS db)"
  by (auto simp: getUserSubscriptions_def)

lemma trySendNotification_subs:
  assumes "trySendNotification E db s n ttl = (db', t, r)"
  shows "set (DB_TABLE_SUBSCRIPTIONS db') \<subseteq> set (DB_TABLE_SUBSCRIPTIONS db)"
    and "sendNotification E s n ttl = WebPushError c \<Longrightarrow> c = 404 \<or> c = 410 \<or> c = 403 \<Longrightarrow>
           endpoint s \<notin> DB_ENDPOINT ` set (DB_TABLE_SUBSCRIPTIONS db')
           \<and> DeletePushSubscription (endpoint s) \<in> callOf ` set t"
  using assms
  by (auto simp: trySendNotification_def deletePushSubscription_def
           split: SendResult.splits if_splits)

lemma trySendAll_subs:
  "trySendAll E db sends = (db', t, threw) \<Longrightarrow>
     set (DB_TABLE_SUBSCRIPTIONS db') \<subseteq> set (DB_TABLE_SUBSCRIPTIONS db)"
proof (induction sends arbitrary: db db' t threw)
  case Nil
  then show ?case by simp
next
  case (Cons a sends)
  obtain s n ttl where a: "a = (s, n, ttl)" by (cases a) auto
  obtain db1 t1 r where one: "trySendNotification E db s n ttl = (db1, t1, r)"
    by (cases "trySendNotification E db s n ttl") auto
  obtain db2 t2 th where rest: "trySendAll E db1 sends = (db2, t2, th)"
    by (cases "trySendAll E db1 sends") auto
  from Cons.prems a one rest have "db' = db2" by simp
  with Cons.IH [OF rest] trySendNotification_subs(1) [OF one] show ?case by blast
qed

lemma trySendAll_permanent:
  "trySendAll E db sends = (db', t, threw) \<Longrightarrow> (s, n, ttl) \<in> set sends \<Longrightarrow>
   sendNotification E s n ttl = WebPushError c \<Longrightarrow> c = 404 \<or> c = 410 \<or> c = 403 \<Longrightarrow>
     endpoint s \<notin> DB_ENDPOINT ` set (DB_TABLE_SUBSCRIPTIONS db')
     \<and> DeletePushSubscription (endpoint s) \<in> callOf ` set t"
proof (induction sends arbitrary: db db' t threw)
  case Nil
  then show ?case by simp
next
  case (Cons a sends)
  obtain s0 n0 ttl0 where a: "a = (s0, n0, ttl0)" by (cases a) auto
  obtain db1 t1 r where one: "trySendNotification E db s0 n0 ttl0 = (db1, t1, r)"
    by (cases "trySendNotification E db s0 n0 ttl0") auto
  obtain db2 t2 th where rest: "trySendAll E db1 sends = (db2, t2, th)"
    by (cases "trySendAll E db1 sends") auto
  from Cons.prems(1) a one rest have eq: "db' = db2" "t = t1 @ t2" by simp_all
  from Cons.prems(2) a consider "(s, n, ttl) = (s0, n0, ttl0)" | "(s, n, ttl) \<in> set sends" by auto
  then show ?case
  proof cases
    case 1
    with trySendNotification_subs(2) [OF one, of c] Cons.prems(3,4)
    have "endpoint s \<notin> DB_ENDPOINT ` set (DB_TABLE_SUBSCRIPTIONS db1)"
      and "DeletePushSubscription (endpoint s) \<in> callOf ` set t1" by auto
    with trySendAll_subs [OF rest] eq show ?thesis by auto
  next
    case 2
    from Cons.IH [OF rest 2 Cons.prems(3,4)] eq show ?thesis by auto
  qed
qed

lemma notifyUsers_subs:
  "notifyUsers E G us db = (db', t, r) \<Longrightarrow>
     set (DB_TABLE_SUBSCRIPTIONS db') \<subseteq> set (DB_TABLE_SUBSCRIPTIONS db)"
proof (induction us arbitrary: db db' t r)
  case Nil
  then show ?case by simp
next
  case (Cons a us)
  obtain userID code where a: "a = (userID, code)" by (cases a) auto
  show ?case
  proof (cases rule: notifyUsers_Cons_cases [of G userID E code us db])
    case typeerror
    with Cons.prems a show ?thesis by simp
  next
    case skip
    with Cons.prems a Cons.IH show ?thesis by simp
  next
    case (send sends db1 t1 threw db3 t3 r')
    from Cons.prems a send(6) have eq: "db' = db3" by simp
    from Cons.IH [OF send(5)]
    have "set (DB_TABLE_SUBSCRIPTIONS db3) \<subseteq> set (DB_TABLE_SUBSCRIPTIONS db1)"
      by (auto split: if_splits)
    with trySendAll_subs [OF send(4)] eq show ?thesis by blast
  qed
qed

lemma notifyUsers_permanent:
  "notifyUsers E G us db = (db', t, r) \<Longrightarrow> SendNotification u s n ttl \<in> callOf ` set t \<Longrightarrow>
   sendNotification E s n ttl = WebPushError c \<Longrightarrow> c = 404 \<or> c = 410 \<or> c = 403 \<Longrightarrow>
     endpoint s \<notin> DB_ENDPOINT ` set (DB_TABLE_SUBSCRIPTIONS db')
     \<and> DeletePushSubscription (endpoint s) \<in> callOf ` set t"
proof (induction us arbitrary: db db' t r)
  case Nil
  then show ?case by simp
next
  case (Cons a us)
  obtain userID code where a: "a = (userID, code)" by (cases a) auto
  show ?case
  proof (cases rule: notifyUsers_Cons_cases [of G userID E code us db])
    case typeerror
    with Cons.prems a show ?thesis by simp
  next
    case skip
    with Cons.prems a Cons.IH show ?thesis by simp
  next
    case (send sends db1 t1 threw db3 t3 r')
    from Cons.prems(1) a send(6)
    have eq: "db' = db3"
      and t: "t = map (\<lambda>(s, n, ttl). Awaited (SendNotification userID s n ttl)) sends
               @ t1 @ (if threw then []
                       else [Detached (UpdateLastNotifiedExpiration userID
                                         (expiration (last (getUserGear G userID))))]) @ t3"
      by simp_all
    have sub3: "set (DB_TABLE_SUBSCRIPTIONS db3) \<subseteq> set (DB_TABLE_SUBSCRIPTIONS db1)"
      using notifyUsers_subs [OF send(5)] by (auto split: if_splits)
    from Cons.prems(2) t
    have c: "SendNotification u s n ttl
               \<in> callOf ` set (map (\<lambda>(s, n, ttl). Awaited (SendNotification userID s n ttl)) sends
               @ t1 @ (if threw then []
                       else [Detached (UpdateLastNotifiedExpiration userID
                                         (expiration (last (getUserGear G userID))))]) @ t3)"
      by simp
    from send(4) c show ?thesis
    proof (cases rule: user_calls)
      case (sent s' n' ttl')
      then have mem: "(s, n, ttl) \<in> set sends" by simp
      from trySendAll_permanent [OF send(4) mem Cons.prems(3,4)] sub3 eq t
      show ?thesis by auto
    next
      case later
      from Cons.IH [OF send(5) later Cons.prems(3,4)] eq t show ?thesis by auto
    qed auto
  qed
qed

lemma handler_subs:
  "set (DB_TABLE_SUBSCRIPTIONS (fst (snd (handler E db)))) \<subseteq> set (DB_TABLE_SUBSCRIPTIONS db)"
proof (cases rule: handler_cases [of E db])
  case (ran raw G db1 t r)
  from notifyUsers_subs [OF ran(3)] ran(4) show ?thesis by simp
qed simp_all

lemma cycles_subs:
  "set (DB_TABLE_SUBSCRIPTIONS (cycles Es db)) \<subseteq> set (DB_TABLE_SUBSCRIPTIONS db)"
proof (induction Es arbitrary: db)
  case Nil
  show ?case by simp
next
  case (Cons E Es)
  from Cons.IH [of "fst (snd (handler E db))"] handler_subs [of E db] show ?case by auto
qed

subsection \<open>Sends and watermarks of a whole cycle\<close>

lemma handler_send_above:
  assumes "handler E db = (status, db', t)"
    and "cycleGearToUserMap E db = Some G"
    and "SendNotification u s p ttl \<in> callOf ` set t"
  shows "getLastNotifiedExpiration db u < expiration (last (getUserGear G u))"
proof (cases rule: handler_cases [of E db])
  case (ran raw G' db1 t1 r)
  from assms(1,3) ran(4) have "SendNotification u s p ttl \<in> callOf ` set t1"
    by (auto split: if_splits)
  from notifyUsers_send_above [OF ran(3) this] ran(2) assms(2) show ?thesis by simp
qed (use assms in auto)

lemma handler_watermark_kept:
  assumes "handler E db = (status, db', t)"
    and "cycleGearToUserMap E db = Some G"
    and "expiration (last (getUserGear G u)) \<le> getLastNotifiedExpiration db u"
  shows "getLastNotifiedExpiration db' u = getLastNotifiedExpiration db u"
proof (cases rule: handler_cases [of E db])
  case (ran raw G' db1 t1 r)
  from ran(2) assms(2) have "G' = G" by simp
  with notifyUsers_watermark_kept [OF ran(3), of u] assms(3)
  have "getLastNotifiedExpiration db1 u = getLastNotifiedExpiration db u" by simp
  with assms(1) ran(4) show ?thesis by (auto split: if_splits)
qed (use assms in auto)

subsection \<open>The rows of the matching query\<close>

lemma set_const_rows:
  "set (map (\<lambda>_. r) (filter (\<lambda>m. k = m) ids)) = (if k \<in> set ids then {r} else {})"
  by (induction ids) auto

lemma keys_rows:
  "fst ` set (concat (map (\<lambda>u. map (\<lambda>_. (DB_USER_ID u, DB_USER_CODE u))
                                 (filter (\<lambda>m. DB_USER_ID u = m) ids)) users))
     = {uid \<in> DB_USER_ID ` set users. uid \<in> set ids}"
proof (induction users)
  case Nil
  show ?case by simp
next
  case (Cons a users)
  have "fst ` set (map (\<lambda>_. (DB_USER_ID a, DB_USER_CODE a)) (filter (\<lambda>m. DB_USER_ID a = m) ids))
          = (if DB_USER_ID a \<in> set ids then {DB_USER_ID a} else {})"
    unfolding set_const_rows by simp
  with Cons show ?case by (simp add: image_Un del: set_map) blast
qed

lemma set_matchingUserIDs:
  "set (concat (map (\<lambda>(uid, fid). map (\<lambda>_. uid) (filter (\<lambda>m. fid = m) mfs)) u2f))
     = {uid. \<exists>fid. (uid, fid) \<in> set u2f \<and> fid \<in> set mfs}"
  by (induction u2f) auto

lemma keys_distinctOn: "fst ` set (distinctOn rows) = fst ` set rows"
proof (induction rows rule: distinctOn.induct)
  case 1
  show ?case by simp
next
  case (2 r rs)
  have "fst ` set (filter (\<lambda>r'. fst r' \<noteq> fst r) rs) = fst ` set rs - {fst r}" by auto
  with 2 show ?case by auto
qed

lemma matchingFilter_spec:
  assumes "gear_type item \<in> set GEAR_TYPES" and "brand item \<in> set GEAR_BRANDS"
    and "ability item \<in> set GEAR_ABILITIES"
  shows "matchingFilter item f = specFilterMatches f item"
  using assms by (auto simp: matchingFilter_def specFilterMatches_def explicitSet_def)

lemma known_columns:
  assumes "gear_type item \<in> set GEAR_TYPES" and "brand item \<in> set GEAR_BRANDS"
    and "ability item \<in> set GEAR_ABILITIES"
  shows "formatCol (ability item) \<in> set filterColumns
         \<and> formatCol (gear_type item) \<in> set filterColumns
         \<and> formatCol (brand item) \<in> set filterColumns"
  using assms by (simp add: filterColumns_def)

subsection \<open>The order of the storage writes\<close>

text \<open>
  Every watermark write of a cycle is detached, and the snapshot write, when there is one, is
  the last call of the cycle: the watermark writes are issued before it, none is awaited.
\<close>

lemma trySendAll_effects:
  "trySendAll E db sends = (db', t, threw) \<Longrightarrow> e \<in> set t \<Longrightarrow>
     (\<exists>x. e = Awaited (DeletePushSubscription x))"
proof (induction sends arbitrary: db db' t threw)
  case Nil
  then show ?case by simp
next
  case (Cons a sends)
  obtain s n ttl where a: "a = (s, n, ttl)" by (cases a) auto
  obtain db1 t1 r where one: "trySendNotification E db s n ttl = (db1, t1, r)"
    by (cases "trySendNotification E db s n ttl") auto
  obtain db2 t2 th where rest: "trySendAll E db1 sends = (db2, t2, th)"
    by (cases "trySendAll E db1 sends") auto
  from Cons.prems(1) a one rest have t: "t = t1 @ t2" by simp
  with Cons.prems(2) consider "e \<in> set t1" | "e \<in> set t2" by auto
  then show ?case
  proof cases
    case 1
    with one show ?thesis
      by (auto simp: trySendNotification_def split: SendResult.splits if_splits)
  next
    case 2
    from Cons.IH [OF rest 2] show ?thesis .
  qed
qed

lemma notifyUsers_effects:
  "notifyUsers E G us db = (db', t, r) \<Longrightarrow> e \<in> set t \<Longrightarrow>
     (\<exists>u s n ttl. e = Awaited (SendNotification u s n ttl))
     \<or> (\<exists>x. e = Awaited (DeletePushSubscription x))
     \<or> (\<exists>u v. e = Detached (UpdateLastNotifiedExpiration u v))"
proof (induction us arbitrary: db db' t r)
  case Nil
  then show ?case by simp
next
  case (Cons a us)
  obtain userID code where a: "a = (userID, code)" by (cases a) auto
  show ?case
  proof (cases rule: notifyUsers_Cons_cases [of G userID E code us db])
    case typeerror
    with Cons.prems a show ?thesis by simp
  next
    case skip
    with Cons.prems a Cons.IH show ?thesis by simp
  next
    case (send sends db1 t1 threw db3 t3 r')
    from Cons.prems(1) a send(6)
    have t: "t = map (\<lambda>(s, n, ttl). Awaited (SendNotification userID s n ttl)) sends
               @ t1 @ (if threw then []
                       else [Detached (UpdateLastNotifiedExpiration userID
                                         (expiration (last (getUserGear G userID))))]) @ t3"
      by simp
    from Cons.prems(2)
    have "e \<in> set (map (\<lambda>(s, n, ttl). Awaited (SendNotification userID s n ttl)) sends)
          \<or> e \<in> set t1
          \<or> e \<in> set (if threw then []
                       else [Detached (UpdateLastNotifiedExpiration userID
                                         (expiration (last (getUserGear G userID))))])
          \<or> e \<in> set t3"
      unfolding t by (simp only: set_append Un_iff)
    moreover have "e = Detached (UpdateLastNotifiedExpiration userID
                                   (expiration (last (getUserGear G userID))))"
      if "e \<in> set (if threw then []
                     else [Detached (UpdateLastNotifiedExpiration userID
                                       (expiration (last (getUserGear G userID))))])"
      using that by (cases threw) simp_all
    ultimately consider
        "e \<in> set (map (\<lambda>(s, n, ttl). Awaited (SendNotification userID s n ttl)) sends)"
      | "e \<in> set t1"
      | "e = Detached (UpdateLastNotifiedExpiration userID
                                         (expiration (last (getUserGear G userID))))"
      | "e \<in> set t3"
      by blast
    then show ?thesis
    proof cases
      case 1
      then obtain s n ttl where "e = Awaited (SendNotification userID s n ttl)" by auto
      then show ?thesis by blast
    next
      case 2
      from trySendAll_effects [OF send(4) 2] show ?thesis by blast
    next
      case 3
      then show ?thesis by blast
    next
      case 4
      from Cons.IH [OF send(5) 4] show ?thesis .
    qed
  qed
qed

lemma handler_watermark_writes_detached:
  assumes "handler E db = (status, db', t)" and "e \<in> set t"
    and "callOf e = UpdateLastNotifiedExpiration u v"
  shows "e = Detached (UpdateLastNotifiedExpiration u v)"
proof (cases rule: handler_cases [of E db])
  case (ran raw G db1 t1 r)
  from assms(1,2,3) ran(4) have "e \<in> set t1" by (auto split: if_splits)
  from notifyUsers_effects [OF ran(3) this] assms(3) show ?thesis by auto
qed (use assms in auto)

lemma handler_snapshot_write_last:
  assumes "handler E db = (status, db', t)"
    and "UpdateCachedRawGearData raw \<in> callOf ` set t"
  shows "\<exists>t'. t = t' @ [Awaited (UpdateCachedRawGearData raw)]
              \<and> (\<forall>raw'. UpdateCachedRawGearData raw' \<notin> callOf ` set t')"
proof (cases rule: handler_cases [of E db])
  case (ran raw0 G db1 t1 r)
  have none: "UpdateCachedRawGearData raw' \<notin> callOf ` set t1" for raw'
    using notifyUsers_calls [OF ran(3), of "UpdateCachedRawGearData raw'"] by auto
  show ?thesis
  proof (cases "r = Completed")
    case True
    with assms(1) ran(4) have t: "t = (Awaited FetchAPIRawGearData # t1)
                                          @ [Awaited (UpdateCachedRawGearData raw0)]"
      by simp
    with assms(2) none [of raw] have "raw = raw0" by auto
    with t none show ?thesis by auto
  next
    case False
    with assms(1) ran(4) have "t = Awaited FetchAPIRawGearData # t1" by simp
    with assms(2) have "UpdateCachedRawGearData raw \<in> callOf ` set t1" by auto
    with none show ?thesis by blast
  qed
qed (use assms in auto)

subsection \<open>Example cycles, evaluated\<close>

lemma example_cycle:
  "handler (exampleEnv [gearA, gearB] Sent) (exampleDb None)
     = (Some 200,
        updateCachedRawGearData (updateLastNotifiedExpiration (exampleDb None) 1 200000)
          [gearA, gearB],
        [Awaited FetchAPIRawGearData,
         Awaited (SendNotification 1 subscription1
                    (generateNotificationPayload (exampleEnv [gearA, gearB] Sent) ''abc'' gearA) 40),
         Awaited (SendNotification 1 subscription1
                    (generateNotificationPayload (exampleEnv [gearA, gearB] Sent) ''abc'' gearB) 190),
         Detached (UpdateLastNotifiedExpiration 1 200000),
         Awaited (UpdateCachedRawGearData [gearA, gearB])])"
  by code_simp

lemma example_cycle_gone:
  "handler (exampleEnv [gearA, gearB] (WebPushError 410)) (exampleDb None)
     = (Some 200,
        updateCachedRawGearData
          (updateLastNotifiedExpiration (deletePushSubscription (exampleDb None) subscription1)
             1 200000)
          [gearA, gearB],
        [Awaited FetchAPIRawGearData,
         Awaited (SendNotification 1 subscription1
                    (generateNotificationPayload (exampleEnv [gearA, gearB] (WebPushError 410))
                       ''abc'' gearA) 40),
         Awaited (SendNotification 1 subscription1
                    (generateNotificationPayload (exampleEnv [gearA, gearB] (WebPushError 410))
                       ''abc'' gearB) 190),
         Awaited (DeletePushSubscription ''https://push.example/1''),
         Awaited (DeletePushSubscription ''https://push.example/1''),
         Detached (UpdateLastNotifiedExpiration 1 200000),
         Awaited (UpdateCachedRawGearData [gearA, gearB])])"
  by code_simp

lemma example_batch:
  "cycleGearToUserMap (exampleEnv [gearA, gearB] outcome) (exampleDb watermark)
     = Some [(gearA, [(1, ''abc'')]), (gearB, [(1, ''abc'')])]"
  by code_simp

lemma example_cycle_between:
  "handler (exampleEnv [gearA, gearB] Sent) (exampleDb (Some 100000))
     = (Some 200,
        updateCachedRawGearData
          (updateLastNotifiedExpiration (exampleDb (Some 100000)) 1 200000) [gearA, gearB],
        [Awaited FetchAPIRawGearData,
         Awaited (SendNotification 1 subscription1
                    (generateNotificationPayload (exampleEnv [gearA, gearB] Sent) ''abc'' gearA) 40),
         Awaited (SendNotification 1 subscription1
                    (generateNotificationPayload (exampleEnv [gearA, gearB] Sent) ''abc'' gearB) 190),
         Detached (UpdateLastNotifiedExpiration 1 200000),
         Awaited (UpdateCachedRawGearData [gearA, gearB])])"
  by code_simp

lemma example_cycle_notified:
  "handler (exampleEnv [gearA, gearB] Sent) (exampleDb (Some 200000))
     = (Some 200,
        updateCachedRawGearData (exampleDb (Some 200000)) [gearA, gearB],
        [Awaited FetchAPIRawGearData, Awaited (UpdateCachedRawGearData [gearA, gearB])])"
  by code_simp

lemma example_cycle_comma:
  "handler (exampleEnv [gearComma, gearB] Sent) (exampleDb None)
     = (None, exampleDb None, [Awaited FetchAPIRawGearData])"
  by code_simp

lemma example_match: "getUsersToBeNotified (exampleDb None) gearA = Inr [(1, ''abc'')]"
  by code_simp

section \<open>The claims\<close>

text \<open>
  C1. The claim asks that the snapshot is stored only after every watermark write of the
  cycle has completed. In the cycle below the handler calls
  \<open>updateLastNotifiedExpiration\<close> and drops its promise, so what it awaits before it
  stores the snapshot is the sends, not the watermark write: the write is still detached
  when \<open>updateCachedRawGearData\<close> is called. Only the order in which the two calls are
  issued is as the claim has it (\<open>handler_snapshot_write_last\<close>), and no watermark write
  is ever awaited (\<open>handler_watermark_writes_detached\<close>).
\<close>

theorem watermark_write_detached_before_snapshot_write:
  "snd (snd (handler (exampleEnv [gearA, gearB] Sent) (exampleDb None)))
     = [Awaited FetchAPIRawGearData,
        Awaited (SendNotification 1 subscription1
                   (generateNotificationPayload (exampleEnv [gearA, gearB] Sent) ''abc'' gearA) 40),
        Awaited (SendNotification 1 subscription1
                   (generateNotificationPayload (exampleEnv [gearA, gearB] Sent) ''abc'' gearB) 190),
        Detached (UpdateLastNotifiedExpiration 1 200000),
        Awaited (UpdateCachedRawGearData [gearA, gearB])]"
  by (simp add: example_cycle)

text \<open>
  C2, as the code has it. The loop compares one value per user with the stored watermark:
  the expiration of the last item of the user's matched-gear list. For every user of the
  batch, if that value is less than or equal to the watermark stored at the start of the
  cycle, then no notification, for any item, is dispatched to that user during the cycle.
\<close>

theorem no_dispatch_when_batch_watermark_stored:
  assumes "handler E db = (status, db', t)"
    and "cycleGearToUserMap E db = Some G"
    and "map_has (aggregateUsers G) u"
    and "expiration (last (getUserGear G u)) \<le> getLastNotifiedExpiration db u"
  shows "SendNotification u s p ttl \<notin> callOf ` set t"
proof
  assume "SendNotification u s p ttl \<in> callOf ` set t"
  from handler_send_above [OF assms(1,2) this] assms(4) show False by simp
qed

theorem no_dispatch_when_batch_watermark_stored_witness:
  "handler (exampleEnv [gearA, gearB] Sent) (exampleDb (Some 200000))
     = (Some 200,
        updateCachedRawGearData (exampleDb (Some 200000)) [gearA, gearB],
        [Awaited FetchAPIRawGearData, Awaited (UpdateCachedRawGearData [gearA, gearB])])
   \<and> cycleGearToUserMap (exampleEnv [gearA, gearB] Sent) (exampleDb (Some 200000))
       = Some [(gearA, [(1, ''abc'')]), (gearB, [(1, ''abc'')])]
   \<and> map_has (aggregateUsers [(gearA, [(1, ''abc'')]), (gearB, [(1, ''abc'')])]) 1
   \<and> expiration (last (getUserGear [(gearA, [(1, ''abc'')]), (gearB, [(1, ''abc'')])] 1))
       \<le> getLastNotifiedExpiration (exampleDb (Some 200000)) 1
   \<and> SendNotification 1 subscription1
        (generateNotificationPayload (exampleEnv [gearA, gearB] Sent) ''abc'' gearB) 190
       \<notin> callOf ` set [Awaited FetchAPIRawGearData,
                        Awaited (UpdateCachedRawGearData [gearA, gearB])]"
proof -
  have m: "map_has (aggregateUsers [(gearA, [(1, ''abc'')]), (gearB, [(1, ''abc'')])]) 1"
    by code_simp
  have e: "expiration (last (getUserGear [(gearA, [(1, ''abc'')]), (gearB, [(1, ''abc'')])] 1))
       \<le> getLastNotifiedExpiration (exampleDb (Some 200000)) 1"
    by code_simp
  from no_dispatch_when_batch_watermark_stored [OF example_cycle_notified example_batch m e]
    example_cycle_notified example_batch m e
  show ?thesis by blast
qed

text \<open>
  C2 as stated fails: with a stored watermark of 100000, a batch of two matched items that
  expire at 50000 and at 200000 is dispatched whole, the item that expires at 50000 included.
\<close>

theorem item_below_watermark_dispatched_counterexample:
  "expiration gearA \<le> getLastNotifiedExpiration (exampleDb (Some 100000)) 1
   \<and> Awaited (SendNotification 1 subscription1
                (generateNotificationPayload (exampleEnv [gearA, gearB] Sent) ''abc'' gearA) 40)
       \<in> set (snd (snd (handler (exampleEnv [gearA, gearB] Sent) (exampleDb (Some 100000)))))"
proof -
  have "expiration gearA \<le> getLastNotifiedExpiration (exampleDb (Some 100000)) 1"
    by code_simp
  then show ?thesis by (simp add: example_cycle_between)
qed

text \<open>
  C3. A cycle writes a user's watermark only with the batch watermark it computed for that
  user (the expiration of the last item of the user's matched-gear list), and only when that
  value is strictly greater than the watermark stored at the start of the cycle. Hence the
  value that \<open>getLastNotifiedExpiration\<close> returns for a user does not decrease over a cycle,
  nor over any number of cycles.
\<close>

theorem watermark_never_decreases:
  assumes "handler E db = (status, db', t)"
  shows "(\<forall>u v. UpdateLastNotifiedExpiration u v \<in> callOf ` set t \<longrightarrow>
            (\<exists>G. cycleGearToUserMap E db = Some G \<and> v = expiration (last (getUserGear G u)))
            \<and> getLastNotifiedExpiration db u < v)
         \<and> (\<forall>u. getLastNotifiedExpiration db u \<le> getLastNotifiedExpiration db' u)
         \<and> (\<forall>u Es. getLastNotifiedExpiration db u \<le> getLastNotifiedExpiration (cycles Es db) u)"
proof -
  have "getLastNotifiedExpiration db u \<le> getLastNotifiedExpiration db' u" for u
    using handler_watermark_mono [of db u E] assms by simp
  with handler_update_above [OF assms] cycles_watermark_mono show ?thesis by blast
qed

theorem watermark_never_decreases_witness:
  "handler (exampleEnv [gearA, gearB] Sent) (exampleDb None)
     = (Some 200,
        updateCachedRawGearData (updateLastNotifiedExpiration (exampleDb None) 1 200000)
          [gearA, gearB],
        [Awaited FetchAPIRawGearData,
         Awaited (SendNotification 1 subscription1
                    (generateNotificationPayload (exampleEnv [gearA, gearB] Sent) ''abc'' gearA) 40),
         Awaited (SendNotification 1 subscription1
                    (generateNotificationPayload (exampleEnv [gearA, gearB] Sent) ''abc'' gearB) 190),
         Detached (UpdateLastNotifiedExpiration 1 200000),
         Awaited (UpdateCachedRawGearData [gearA, gearB])])
   \<and> getLastNotifiedExpiration (exampleDb None) 1 < 200000
   \<and> getLastNotifiedExpiration (exampleDb None) 1
       \<le> getLastNotifiedExpiration
            (updateCachedRawGearData (updateLastNotifiedExpiration (exampleDb None) 1 200000)
               [gearA, gearB]) 1
   \<and> getLastNotifiedExpiration (exampleDb None) 1
       \<le> getLastNotifiedExpiration
            (cycles [exampleEnv [gearA, gearB] Sent, exampleEnv [gearA] Sent] (exampleDb None)) 1"
proof -
  note w = watermark_never_decreases [OF example_cycle]
  have "UpdateLastNotifiedExpiration 1 200000
          \<in> callOf ` set [Awaited FetchAPIRawGearData,
         Awaited (SendNotification 1 subscription1
                    (generateNotificationPayload (exampleEnv [gearA, gearB] Sent) ''abc'' gearA) 40),
         Awaited (SendNotification 1 subscription1
                    (generateNotificationPayload (exampleEnv [gearA, gearB] Sent) ''abc'' gearB) 190),
         Detached (UpdateLastNotifiedExpiration 1 200000),
         Awaited (UpdateCachedRawGearData [gearA, gearB])]" by simp
  with w example_cycle show ?thesis by blast
qed

text \<open>
  C4. The claim asks that an item with a malformed name is skipped while the other items of
  the batch are matched and dispatched and the cycle ends with status 200. In the cycle
  below one of two new items has a comma in its name; the other matches a user with a
  subscribed device. The lookup of the first item fails, the handler never answers and
  nothing is sent.
\<close>

theorem malformed_name_leaves_cycle_pending:
  "getUsersToBeNotified (exampleDb None) gearComma = Inl IllegalArgumentError
   \<and> getUsersToBeNotified (exampleDb None) gearB = Inr [(1, ''abc'')]
   \<and> getUserSubscriptions (exampleDb None) 1 = [subscription1]
   \<and> handler (exampleEnv [gearComma, gearB] Sent) (exampleDb None)
       = (None, exampleDb None, [Awaited FetchAPIRawGearData])"
proof -
  have a: "getUsersToBeNotified (exampleDb None) gearComma = Inl IllegalArgumentError"
    by code_simp
  have b: "getUsersToBeNotified (exampleDb None) gearB = Inr [(1, ''abc'')]"
    by code_simp
  have c: "getUserSubscriptions (exampleDb None) 1 = [subscription1]"
    by code_simp
  from a b c example_cycle_comma show ?thesis by simp
qed

text \<open>
  C5, as the code has it. For every user of the batch whose stored watermark already equals
  the batch watermark computed for them, the cycle dispatches nothing to that user, and the
  stored watermark after the cycle equals the value stored before it.
\<close>

theorem equal_watermark_user_is_skipped:
  assumes "handler E db = (status, db', t)"
    and "cycleGearToUserMap E db = Some G"
    and "map_has (aggregateUsers G) u"
    and "getLastNotifiedExpiration db u = expiration (last (getUserGear G u))"
  shows "(\<forall>s p ttl. SendNotification u s p ttl \<notin> callOf ` set t)
         \<and> getLastNotifiedExpiration db' u = getLastNotifiedExpiration db u"
proof -
  have "SendNotification u s p ttl \<notin> callOf ` set t" for s p ttl
  proof
    assume "SendNotification u s p ttl \<in> callOf ` set t"
    from handler_send_above [OF assms(1,2) this] assms(4) show False by simp
  qed
  moreover have "getLastNotifiedExpiration db' u = getLastNotifiedExpiration db u"
    using handler_watermark_kept [OF assms(1,2), of u] assms(4) by simp
  ultimately show ?thesis by blast
qed

theorem equal_watermark_user_is_skipped_witness:
  "handler (exampleEnv [gearA, gearB] Sent) (exampleDb (Some 200000))
     = (Some 200,
        updateCachedRawGearData (exampleDb (Some 200000)) [gearA, gearB],
        [Awaited FetchAPIRawGearData, Awaited (UpdateCachedRawGearData [gearA, gearB])])
   \<and> cycleGearToUserMap (exampleEnv [gearA, gearB] Sent) (exampleDb (Some 200000))
       = Some [(gearA, [(1, ''abc'')]), (gearB, [(1, ''abc'')])]
   \<and> map_has (aggregateUsers [(gearA, [(1, ''abc'')]), (gearB, [(1, ''abc'')])]) 1
   \<and> getLastNotifiedExpiration (exampleDb (Some 200000)) 1
       = expiration (last (getUserGear [(gearA, [(1, ''abc'')]), (gearB, [(1, ''abc'')])] 1))
   \<and> getLastNotifiedExpiration
        (updateCachedRawGearData (exampleDb (Some 200000)) [gearA, gearB]) 1
       = getLastNotifiedExpiration (exampleDb (Some 200000)) 1"
proof -
  have m: "map_has (aggregateUsers [(gearA, [(1, ''abc'')]), (gearB, [(1, ''abc'')])]) 1"
    by code_simp
  have e: "getLastNotifiedExpiration (exampleDb (Some 200000)) 1
       = expiration (last (getUserGear [(gearA, [(1, ''abc'')]), (gearB, [(1, ''abc'')])] 1))"
    by code_simp
  from equal_watermark_user_is_skipped [OF example_cycle_notified example_batch m e]
    example_cycle_notified example_batch m e
  show ?thesis by blast
qed

text \<open>
  C5 as stated fails: a user with one subscribed device whose stored watermark equals the
  batch watermark gets no send at all; the cycle only fetches and stores the snapshot.
\<close>

theorem equal_watermark_no_dispatch_counterexample:
  "cycleGearToUserMap (exampleEnv [gearA, gearB] Sent) (exampleDb (Some 200000))
     = Some [(gearA, [(1, ''abc'')]), (gearB, [(1, ''abc'')])]
   \<and> getLastNotifiedExpiration (exampleDb (Some 200000)) 1
       = expiration (last (getUserGear [(gearA, [(1, ''abc'')]), (gearB, [(1, ''abc'')])] 1))
   \<and> getUserSubscriptions (exampleDb (Some 200000)) 1 = [subscription1]
   \<and> snd (snd (handler (exampleEnv [gearA, gearB] Sent) (exampleDb (Some 200000))))
       = [Awaited FetchAPIRawGearData, Awaited (UpdateCachedRawGearData [gearA, gearB])]"
proof -
  have e: "getLastNotifiedExpiration (exampleDb (Some 200000)) 1
       = expiration (last (getUserGear [(gearA, [(1, ''abc'')]), (gearB, [(1, ''abc'')])] 1))"
    by code_simp
  have s: "getUserSubscriptions (exampleDb (Some 200000)) 1 = [subscription1]"
    by code_simp
  from e s example_batch [of Sent "Some 200000"] show ?thesis
    by (simp add: example_cycle_notified)
qed

text \<open>
  C6. A cycle starts once the request has passed step 0 of the handler: no secret is
  configured, or the authorization header equals it. If the stored snapshot is then not
  empty and its earliest expiration is still in the future, the handler answers 425 and does
  nothing else: it makes no call (no fetch from the inventory API, no send) and leaves the
  database, snapshot and watermarks included, as it was.
\<close>

theorem too_early_short_circuit:
  assumes "ACTION_SECRET E = None \<or> ACTION_SECRET E = Some [] \<or> ACTION_SECRET E = authorization E"
    and "fetchCachedRawGearData db = Some cachedRawGearData"
    and "rawGearDataToGearList E cachedRawGearData \<noteq> []"
    and "now E < Min (expiration ` set (rawGearDataToGearList E cachedRawGearData))"
  shows "handler E db = (Some 425, db, [])"
proof -
  let ?cached = "rawGearDataToGearList E cachedRawGearData"
  from assms(3) have "expiration (hd ?cached) \<in> expiration ` set ?cached" by simp
  then have "Min (expiration ` set ?cached) \<le> expiration (hd ?cached)" by simp
  with assms(4) have "now E < expiration (hd ?cached)" by simp
  with assms(1,2,3) show ?thesis by (auto simp: handler_def Let_def)
qed

theorem too_early_short_circuit_witness:
  "ACTION_SECRET (exampleEnv [gearB] Sent) = None
   \<and> fetchCachedRawGearData ((exampleDb None)\<lparr>DB_TABLE_SERVER_CACHE := Some [gearA, gearB]\<rparr>)
       = Some [gearA, gearB]
   \<and> rawGearDataToGearList (exampleEnv [gearB] Sent) [gearA, gearB] \<noteq> []
   \<and> now (exampleEnv [gearB] Sent)
       < Min (expiration ` set (rawGearDataToGearList (exampleEnv [gearB] Sent) [gearA, gearB]))
   \<and> handler (exampleEnv [gearB] Sent) ((exampleDb None)\<lparr>DB_TABLE_SERVER_CACHE := Some [gearA, gearB]\<rparr>)
       = (Some 425, (exampleDb None)\<lparr>DB_TABLE_SERVER_CACHE := Some [gearA, gearB]\<rparr>, [])"
proof -
  have a: "ACTION_SECRET (exampleEnv [gearB] Sent) = None" by (simp add: exampleEnv_def)
  have b: "fetchCachedRawGearData ((exampleDb None)\<lparr>DB_TABLE_SERVER_CACHE := Some [gearA, gearB]\<rparr>)
       = Some [gearA, gearB]" by (simp add: fetchCachedRawGearData_def)
  have c: "rawGearDataToGearList (exampleEnv [gearB] Sent) [gearA, gearB] \<noteq> []"
    by (simp add: exampleEnv_def)
  have d: "now (exampleEnv [gearB] Sent)
       < Min (expiration ` set (rawGearDataToGearList (exampleEnv [gearB] Sent) [gearA, gearB]))"
    by (simp add: exampleEnv_def gearA_def gearB_def)
  show ?thesis
    using a b c d too_early_short_circuit [OF disjI1 [OF a] b c d] by simp
qed

text \<open>
  C7, as the code has it. For every item whose name passes the allow-list and whose type,
  brand and ability are among the known gear types, brands and abilities, the matcher
  returns a user map, and a user is in it if and only if the user is in the user table and
  owns at least one filter for which all of these hold: the item's rarity is at least the
  filter's minimum rarity, the filter's name is unset or equals the item's name, and for
  each of type, brand and ability the filter is wildcarded or the item's value is in the
  filter's explicit set.
\<close>

theorem matcher_result:
  assumes "allowedCharsPattern (name item)"
    and "gear_type item \<in> set GEAR_TYPES" and "brand item \<in> set GEAR_BRANDS"
    and "ability item \<in> set GEAR_ABILITIES"
  shows "\<exists>userMap. getUsersToBeNotified db item = Inr userMap
           \<and> (\<forall>u. map_has userMap u \<longleftrightarrow>
                  u \<in> DB_USER_ID ` set (DB_TABLE_USERS db)
                  \<and> (\<exists>f \<in> set (DB_TABLE_FILTERS db).
                        (u, DB_FILTER_ID f) \<in> set (DB_TABLE_USERS_TO_FILTERS db)
                        \<and> specFilterMatches f item))"
proof -
  define matchingFilters where
    "matchingFilters = map DB_FILTER_ID (filter (matchingFilter item) (DB_TABLE_FILTERS db))"
  define matchingUserIDs where
    "matchingUserIDs =
       concat (map (\<lambda>(uid, fid). map (\<lambda>_. uid) (filter (\<lambda>m. fid = m) matchingFilters))
                   (DB_TABLE_USERS_TO_FILTERS db))"
  define rows where
    "rows = distinctOn
              (concat (map (\<lambda>u. map (\<lambda>_. (DB_USER_ID u, DB_USER_CODE u))
                                     (filter (\<lambda>m. DB_USER_ID u = m) matchingUserIDs))
                           (DB_TABLE_USERS db)))"
  define userMap where
    "userMap = foldl (\<lambda>userMap (uid, code). map_set uid code userMap) [] rows"
  have res: "getUsersToBeNotified db item = Inr userMap"
    using assms(1) known_columns [OF assms(2,3,4)]
    by (simp add: getUsersToBeNotified_def Let_def userMap_def rows_def matchingUserIDs_def
                  matchingFilters_def)
  have mf: "set matchingFilters
              = DB_FILTER_ID ` {f \<in> set (DB_TABLE_FILTERS db). specFilterMatches f item}"
    by (simp add: matchingFilters_def matchingFilter_spec [OF assms(2,3,4)])
  have mu: "set matchingUserIDs
              = {uid. \<exists>fid. (uid, fid) \<in> set (DB_TABLE_USERS_TO_FILTERS db)
                            \<and> fid \<in> set matchingFilters}"
    unfolding matchingUserIDs_def by (rule set_matchingUserIDs)
  have rw: "fst ` set rows
              = {uid \<in> DB_USER_ID ` set (DB_TABLE_USERS db). uid \<in> set matchingUserIDs}"
    unfolding rows_def keys_distinctOn by (rule keys_rows)
  have mh: "map_has userMap u \<longleftrightarrow> u \<in> fst ` set rows" for u
    unfolding userMap_def by (simp add: map_has_entries_aux map_has_Nil)
  have "map_has userMap u \<longleftrightarrow>
                  u \<in> DB_USER_ID ` set (DB_TABLE_USERS db)
                  \<and> (\<exists>f \<in> set (DB_TABLE_FILTERS db).
                        (u, DB_FILTER_ID f) \<in> set (DB_TABLE_USERS_TO_FILTERS db)
                        \<and> specFilterMatches f item)" for u
    unfolding mh rw mu mf by blast
  with res show ?thesis by blast
qed

theorem matcher_result_witness:
  "allowedCharsPattern (name gearA)
   \<and> gear_type gearA \<in> set GEAR_TYPES \<and> brand gearA \<in> set GEAR_BRANDS
   \<and> ability gearA \<in> set GEAR_ABILITIES
   \<and> getUsersToBeNotified (exampleDb None) gearA = Inr [(1, ''abc'')]
   \<and> 1 \<in> DB_USER_ID ` set (DB_TABLE_USERS (exampleDb None))
   \<and> (\<exists>f \<in> set (DB_TABLE_FILTERS (exampleDb None)).
         (1, DB_FILTER_ID f) \<in> set (DB_TABLE_USERS_TO_FILTERS (exampleDb None))
         \<and> specFilterMatches f gearA)"
proof -
  have a: "allowedCharsPattern (name gearA)" by code_simp
  have t: "gear_type gearA \<in> set GEAR_TYPES" by code_simp
  have b: "brand gearA \<in> set GEAR_BRANDS" by code_simp
  have c: "ability gearA \<in> set GEAR_ABILITIES" by code_simp
  have m: "map_has [(1::nat, ''abc'')] 1" by (simp add: map_has_def)
  from matcher_result [OF a t b c, of "exampleDb None"] example_match m
  have "1 \<in> DB_USER_ID ` set (DB_TABLE_USERS (exampleDb None))
        \<and> (\<exists>f \<in> set (DB_TABLE_FILTERS (exampleDb None)).
              (1, DB_FILTER_ID f) \<in> set (DB_TABLE_USERS_TO_FILTERS (exampleDb None))
              \<and> specFilterMatches f gearA)"
    by auto
  with a t b c example_match show ?thesis by blast
qed

text \<open>
  C7 as stated fails in three ways. A filter that wildcards everything matches an item with
  a comma in its name, and one of a brand without a column, yet the matcher returns no user
  map for either, but an error. And a user who owns two filters, of which only one matches
  the item, is in the result although the other filter does not match.
\<close>

theorem matcher_result_counterexample:
  "(specFilterMatches filterAny gearComma
    \<and> (1, DB_FILTER_ID filterAny) \<in> set (DB_TABLE_USERS_TO_FILTERS (exampleDb None))
    \<and> filterAny \<in> set (DB_TABLE_FILTERS (exampleDb None))
    \<and> getUsersToBeNotified (exampleDb None) gearComma = Inl IllegalArgumentError)
   \<and> (specFilterMatches filterAny gearZF
      \<and> getUsersToBeNotified (exampleDb None) gearZF = Inl QueryError)
   \<and> (\<not> specFilterMatches filterRare gearA
      \<and> (1, DB_FILTER_ID filterRare)
          \<in> set (DB_TABLE_USERS_TO_FILTERS
                  ((exampleDb None)\<lparr>DB_TABLE_FILTERS := [filterAny, filterRare],
                                    DB_TABLE_USERS_TO_FILTERS := [(1, 1), (1, 2)]\<rparr>))
      \<and> getUsersToBeNotified
           ((exampleDb None)\<lparr>DB_TABLE_FILTERS := [filterAny, filterRare],
                             DB_TABLE_USERS_TO_FILTERS := [(1, 1), (1, 2)]\<rparr>) gearA
          = Inr [(1, ''abc'')])"
  by code_simp

text \<open>
  C8. When a send attempt to a subscription ends with status 404, 410 or 403, the same cycle
  deletes the subscription from the database, and the subscription is in the list of that
  user's subscriptions in no later cycle.
\<close>

theorem permanent_failure_removes_subscription:
  assumes "handler E db = (status, db', t)"
    and "SendNotification u s p ttl \<in> callOf ` set t"
    and "sendNotification E s p ttl = WebPushError c"
    and "c = 404 \<or> c = 410 \<or> c = 403"
  shows "DeletePushSubscription (endpoint s) \<in> callOf ` set t
         \<and> endpoint s \<notin> DB_ENDPOINT ` set (DB_TABLE_SUBSCRIPTIONS db')
         \<and> (\<forall>Es. s \<notin> set (getUserSubscriptions (cycles Es db') u))"
proof -
  have now: "DeletePushSubscription (endpoint s) \<in> callOf ` set t
         \<and> endpoint s \<notin> DB_ENDPOINT ` set (DB_TABLE_SUBSCRIPTIONS db')"
  proof (cases rule: handler_cases [of E db])
    case (ran raw G db1 t1 r)
    from assms(1,2) ran(4) have "SendNotification u s p ttl \<in> callOf ` set t1"
      by (auto split: if_splits)
    from notifyUsers_permanent [OF ran(3) this assms(3,4)] assms(1) ran(4)
    show ?thesis by (auto split: if_splits)
  qed (use assms in auto)
  have "s \<notin> set (getUserSubscriptions (cycles Es db') u)" for Es
  proof
    assume "s \<in> set (getUserSubscriptions (cycles Es db') u)"
    then have "endpoint s \<in> DB_ENDPOINT ` set (DB_TABLE_SUBSCRIPTIONS (cycles Es db'))"
      by (rule getUserSubscriptions_endpoint)
    with cycles_subs [of Es db'] now show False by blast
  qed
  with now show ?thesis by blast
qed

theorem permanent_failure_removes_subscription_witness:
  "handler (exampleEnv [gearA, gearB] (WebPushError 410)) (exampleDb None)
     = (Some 200,
        updateCachedRawGearData
          (updateLastNotifiedExpiration (deletePushSubscription (exampleDb None) subscription1)
             1 200000)
          [gearA, gearB],
        [Awaited FetchAPIRawGearData,
         Awaited (SendNotification 1 subscription1
                    (generateNotificationPayload (exampleEnv [gearA, gearB] (WebPushError 410))
                       ''abc'' gearA) 40),
         Awaited (SendNotification 1 subscription1
                    (generateNotificationPayload (exampleEnv [gearA, gearB] (WebPushError 410))
                       ''abc'' gearB) 190),
         Awaited (DeletePushSubscription ''https://push.example/1''),
         Awaited (DeletePushSubscription ''https://push.example/1''),
         Detached (UpdateLastNotifiedExpiration 1 200000),
         Awaited (UpdateCachedRawGearData [gearA, gearB])])
   \<and> sendNotification (exampleEnv [gearA, gearB] (WebPushError 410)) subscription1
       (generateNotificationPayload (exampleEnv [gearA, gearB] (WebPushError 410)) ''abc'' gearA) 40
       = WebPushError 410
   \<and> subscription1 \<in> set (getUserSubscriptions (exampleDb None) 1)
   \<and> endpoint subscription1
       \<notin> DB_ENDPOINT ` set (DB_TABLE_SUBSCRIPTIONS
            (updateCachedRawGearData
               (updateLastNotifiedExpiration
                  (deletePushSubscription (exampleDb None) subscription1) 1 200000)
               [gearA, gearB]))
   \<and> subscription1
       \<notin> set (getUserSubscriptions
                (cycles [exampleEnv [gearA, gearB] Sent]
                   (updateCachedRawGearData
                      (updateLastNotifiedExpiration
                         (deletePushSubscription (exampleDb None) subscription1) 1 200000)
                      [gearA, gearB])) 1)"
proof -
  have o: "sendNotification (exampleEnv [gearA, gearB] (WebPushError 410)) subscription1
     (generateNotificationPayload (exampleEnv [gearA, gearB] (WebPushError 410)) ''abc'' gearA) 40
     = WebPushError 410" by (simp add: exampleEnv_def)
  have before: "subscription1 \<in> set (getUserSubscriptions (exampleDb None) 1)"
    by code_simp
  have m: "SendNotification 1 subscription1
             (generateNotificationPayload (exampleEnv [gearA, gearB] (WebPushError 410)) ''abc'' gearA) 40
           \<in> callOf ` set [Awaited FetchAPIRawGearData,
         Awaited (SendNotification 1 subscription1
                    (generateNotificationPayload (exampleEnv [gearA, gearB] (WebPushError 410))
                       ''abc'' gearA) 40),
         Awaited (SendNotification 1 subscription1
                    (generateNotificationPayload (exampleEnv [gearA, gearB] (WebPushError 410))
                       ''abc'' gearB) 190),
         Awaited (DeletePushSubscription ''https://push.example/1''),
         Awaited (DeletePushSubscription ''https://push.example/1''),
         Detached (UpdateLastNotifiedExpiration 1 200000),
         Awaited (UpdateCachedRawGearData [gearA, gearB])]" by simp
  have c: "(410::int) = 404 \<or> (410::int) = 410 \<or> (410::int) = 403" by simp
  from permanent_failure_removes_subscription [OF example_cycle_gone m o c] o before
    example_cycle_gone
  show ?thesis by blast
qed

text \<open>
  C9. The claim asks that the TTL is the number of whole seconds until the item's expiration
  and zero when the expiration is in the past. \<open>generateNotificationOptions\<close> takes the
  floor of the difference and clamps nothing, so an item that expired 1500 ms ago gets the
  TTL \<open>-2\<close>, which is no time for which a notification can be retained. With a push
  library that refuses a negative TTL the send throws and the cycle answers 500, with no
  watermark and no snapshot stored.
\<close>

theorem expired_item_gets_negative_ttl:
  "expiration (gearA\<lparr>expiration := 8500\<rparr>) < now (exampleEnv [gearA\<lparr>expiration := 8500\<rparr>] Sent)
   \<and> generateNotificationOptions (exampleEnv [gearA\<lparr>expiration := 8500\<rparr>] Sent)
         (gearA\<lparr>expiration := 8500\<rparr>) = - 2
   \<and> handler ((exampleEnv [gearA\<lparr>expiration := 8500\<rparr>] Sent)
                \<lparr>sendNotification := (\<lambda>subscription notification options.
                                        if options < 0 then OtherError else Sent)\<rparr>)
         (exampleDb None)
       = (Some 500, exampleDb None,
          [Awaited FetchAPIRawGearData,
           Awaited (SendNotification 1 subscription1
                      (generateNotificationPayload (exampleEnv [gearA\<lparr>expiration := 8500\<rparr>] Sent)
                         ''abc'' (gearA\<lparr>expiration := 8500\<rparr>)) (- 2))])"
  by code_simp

text \<open>
  C10. Every user id in the aggregated user map of a cycle occurs in the matched-user map of
  at least one item, so the matched-gear list that the loop builds for that user is not
  empty, and reading its last element to get the batch watermark never reads a missing
  element: the loop over the aggregated user map never ends in the \<open>TypeError\<close>.
\<close>

theorem aggregated_user_has_gear:
  "(map_has (aggregateUsers gearToUserMap) userID \<longrightarrow>
      (\<exists>(gear, userMap) \<in> set gearToUserMap. map_has userMap userID)
      \<and> getUserGear gearToUserMap userID \<noteq> [])
   \<and> snd (snd (notifyUsers E gearToUserMap (aggregateUsers gearToUserMap) db)) \<noteq> TypeError"
proof -
  have all: "\<forall>(u, c) \<in> set (aggregateUsers gearToUserMap). getUserGear gearToUserMap u \<noteq> []"
  proof (clarify)
    fix u c
    assume "(u, c) \<in> set (aggregateUsers gearToUserMap)" and e: "getUserGear gearToUserMap u = []"
    then have "map_has (aggregateUsers gearToUserMap) u" by (force simp: map_has_def)
    from getUserGear_nonempty [OF this] e show False by simp
  qed
  obtain db' t r where n: "notifyUsers E gearToUserMap (aggregateUsers gearToUserMap) db = (db', t, r)"
    by (cases "notifyUsers E gearToUserMap (aggregateUsers gearToUserMap) db") auto
  from notifyUsers_no_TypeError [OF all n] n
  have "snd (snd (notifyUsers E gearToUserMap (aggregateUsers gearToUserMap) db)) \<noteq> TypeError"
    by simp
  then show ?thesis
    by (simp add: map_has_aggregateUsers [symmetric] getUserGear_nonempty)
qed

theorem aggregated_user_has_gear_witness:
  "map_has (aggregateUsers [(gearA, [(1, ''abc'')]), (gearB, [(1, ''abc'')])]) 1
   \<and> getUserGear [(gearA, [(1, ''abc'')]), (gearB, [(1, ''abc'')])] 1 = [gearA, gearB]
   \<and> getUserGear [(gearA, [(1, ''abc'')]), (gearB, [(1, ''abc'')])] 1 \<noteq> []"
proof -
  have h: "map_has (aggregateUsers [(gearA, [(1, ''abc'')]), (gearB, [(1, ''abc'')])]) 1"
    by code_simp
  have g: "getUserGear [(gearA, [(1, ''abc'')]), (gearB, [(1, ''abc'')])] 1 = [gearA, gearB]"
    by code_simp
  show ?thesis
    using h g aggregated_user_has_gear
      [of "[(gearA, [(1, ''abc'')]), (gearB, [(1, ''abc'')])]" 1
          "exampleEnv [gearA, gearB] Sent" "exampleDb None"]
    by simp
qed

end
